theory Spec2Isabelle
  imports Complex_Main
begin

section \<open>Table cell resizing: a shallow embedding\<close>

text \<open>
  The definitions below follow \<^verbatim>\<open>resizing.ts\<close> (the plugin state, the pointer
  handlers and the two commit functions) and \<^verbatim>\<open>schema.ts\<close> (attribute parsing)
  function by function.

  Conventions of the embedding:
  \<^item> a JavaScript number is a \<^typ>\<open>real\<close>; where a computation of the source can
    produce \<^verbatim>\<open>NaN\<close> or an infinity, the model returns \<^typ>\<open>real option\<close> and
    \<open>None\<close> stands for the non-finite value;
  \<^item> document positions are \<^typ>\<open>nat\<close>; the active handle is an \<^typ>\<open>int\<close>
    because \<open>-1\<close> is its "no handle" sentinel;
  \<^item> \<^verbatim>\<open>X | false\<close>, \<^verbatim>\<open>X | null\<close> and \<^verbatim>\<open>X | undefined\<close> are
    \<open>X option\<close>; the source only ever tests such values for truthiness;
  \<^item> a size-hint array (\<^verbatim>\<open>colwidth\<close>, \<^verbatim>\<open>rowheight\<close>) is a list of optional
    numbers, \<open>None\<close> being a hole, \<^verbatim>\<open>null\<close> or \<^verbatim>\<open>undefined\<close>.
\<close>

subsection \<open>Plugin state\<close>

datatype Direction = horiz | vert

record DraggingX =
  startX :: real
  startWidth :: real

record DraggingY =
  startY :: real
  startHeight :: real

datatype Dragging = DragX DraggingX | DragY DraggingY

record ResizeState =
  activeHandle :: int
  dragging :: "Dragging option"
  direction :: "Direction option"

text \<open>
  The metadata object a transaction carries under the plugin key. \<open>setHandle\<close> is
  \<open>None\<close> when the property is \<^verbatim>\<open>null\<close> or missing; \<open>setDragging\<close> is
  \<open>None\<close> when the property is missing (\<^verbatim>\<open>undefined\<close>), \<open>Some None\<close> when it is
  \<^verbatim>\<open>null\<close>. The field \<open>adirection\<close> is the object's \<^verbatim>\<open>direction\<close>.
\<close>

record Action =
  setHandle :: "int option"
  adirection :: "Direction option"
  setDragging :: "Dragging option option"

text \<open>
  What \<^verbatim>\<open>ResizeState.apply\<close> reads of a transaction: \<open>getMeta\<close> is
  \<^verbatim>\<open>tr.getMeta(resizingPluginKey)\<close>, \<open>mapping\<close> is
  \<^verbatim>\<open>tr.mapping.map(pos, -1)\<close> and \<open>pointsAtCell\<close> is
  \<^verbatim>\<open>pointsAtCell(tr.doc.resolve(pos))\<close>; the last two belong to the host
  editor and to \<^verbatim>\<open>util.ts\<close> and are taken as they come.
\<close>

record Transaction =
  getMeta :: "Action option"
  docChanged :: bool
  mapping :: "int \<Rightarrow> int"
  pointsAtCell :: "int \<Rightarrow> bool"

definition apply_tr :: "ResizeState \<Rightarrow> Transaction \<Rightarrow> ResizeState" where
  "apply_tr state tr =
     (let action = getMeta tr in
      if action \<noteq> None \<and> setHandle (the action) \<noteq> None then
        (let h = the (setHandle (the action)) in
         \<lparr>activeHandle = h, dragging = None,
          direction = (if h > -1 then adirection (the action) else None)\<rparr>)
      else if action \<noteq> None \<and> setDragging (the action) \<noteq> None then
        \<lparr>activeHandle = activeHandle state,
         dragging = the (setDragging (the action)),
         direction = direction state\<rparr>
      else if activeHandle state > -1 \<and> docChanged tr then
        (let handle = mapping tr (activeHandle state);
             handle = (if \<not> pointsAtCell tr handle then -1 else handle)
         in \<lparr>activeHandle = handle, dragging = dragging state,
             direction = direction state\<rparr>)
      else state)"

text \<open>The state the plugin starts from: \<^verbatim>\<open>new ResizeState(-1, false, false)\<close>.\<close>

definition init :: ResizeState where
  "init = \<lparr>activeHandle = -1, dragging = None, direction = None\<rparr>"

subsection \<open>Dragged sizes\<close>

record MouseEvent =
  clientX :: real
  clientY :: real
  which :: nat

definition draggedWidth :: "DraggingX \<Rightarrow> MouseEvent \<Rightarrow> real \<Rightarrow> real" where
  "draggedWidth drag event cellMinWidth =
     (let offset = clientX event - startX drag
      in max cellMinWidth (startWidth drag + offset))"

definition draggedHeight :: "DraggingY \<Rightarrow> MouseEvent \<Rightarrow> real \<Rightarrow> real" where
  "draggedHeight drag event cellMinHeight =
     (let offset = clientY event - startY drag
      in max cellMinHeight (startHeight drag + offset))"

text \<open>
  The casts \<^verbatim>\<open>dragging as DraggingX\<close> and \<^verbatim>\<open>dragging as DraggingY\<close>: on the
  other variant the fields read are \<^verbatim>\<open>undefined\<close> and the dragged size is
  \<^verbatim>\<open>NaN\<close>, here \<open>None\<close>.
\<close>

fun draggedWidthOf :: "Dragging \<Rightarrow> MouseEvent \<Rightarrow> real \<Rightarrow> real option" where
  "draggedWidthOf (DragX d) event cellMinWidth = Some (draggedWidth d event cellMinWidth)"
| "draggedWidthOf (DragY d) event cellMinWidth = None"

fun draggedHeightOf :: "Dragging \<Rightarrow> MouseEvent \<Rightarrow> real \<Rightarrow> real option" where
  "draggedHeightOf (DragY d) event cellMinHeight = Some (draggedHeight d event cellMinHeight)"
| "draggedHeightOf (DragX d) event cellMinHeight = None"

text \<open>
  The calls the two drag listeners of \<^verbatim>\<open>handleMouseDown\<close> make, with their
  arguments: \<open>finish\<close> commits, \<open>move\<close> previews (and finishes when no button is
  held any more).
\<close>

datatype call =
    UpdateColumnWidth int "real option"
  | UpdateRowHeight int "real option"
  | DisplayColumnWidth int "real option"
  | DisplayRowHeight int "real option"

definition finish :: "ResizeState \<Rightarrow> MouseEvent \<Rightarrow> real \<Rightarrow> real \<Rightarrow> call option" where
  "finish pluginState event cellMinWidth cellMinHeight =
     (case dragging pluginState of
        None \<Rightarrow> None
      | Some d \<Rightarrow>
          if direction pluginState = Some horiz then
            Some (UpdateColumnWidth (activeHandle pluginState)
                    (draggedWidthOf d event cellMinWidth))
          else if direction pluginState = Some vert then
            Some (UpdateRowHeight (activeHandle pluginState)
                    (draggedHeightOf d event cellMinHeight))
          else None)"

definition move :: "ResizeState \<Rightarrow> MouseEvent \<Rightarrow> real \<Rightarrow> real \<Rightarrow> call option" where
  "move pluginState event cellMinWidth cellMinHeight =
     (if which event = 0 then finish pluginState event cellMinWidth cellMinHeight
      else case dragging pluginState of
        None \<Rightarrow> None
      | Some d \<Rightarrow>
          if direction pluginState = Some horiz then
            Some (DisplayColumnWidth (activeHandle pluginState)
                    (draggedWidthOf d event cellMinWidth))
          else if direction pluginState = Some vert then
            Some (DisplayRowHeight (activeHandle pluginState)
                    (draggedHeightOf d event cellMinHeight))
          else None)"

subsection \<open>Size-hint arrays\<close>

type_synonym hints = "real option list"

text \<open>
  \<^verbatim>\<open>xs[i]\<close>: \<^verbatim>\<open>undefined\<close> outside the array. \<^verbatim>\<open>xs[i] = v\<close>: inside the
  array the element is replaced; at or beyond the length the array grows, with holes up
  to the new element; a negative index adds a property and leaves the elements and the
  length as they are. The model does not keep that property, so a later read at the
  same negative index is \<open>None\<close> here where JavaScript reads the value back; an
  index is negative only on a grid map whose cells are not rectangles.
\<close>

definition get_at :: "hints \<Rightarrow> int \<Rightarrow> real option" where
  "get_at xs i = (if 0 \<le> i \<and> nat i < length xs then xs ! nat i else None)"

definition set_at :: "hints \<Rightarrow> int \<Rightarrow> real \<Rightarrow> hints" where
  "set_at xs i v =
     (if i < 0 then xs
      else if nat i < length xs then xs[nat i := Some v]
      else xs @ replicate (nat i - length xs) None @ [Some v])"

definition zeroes :: "nat \<Rightarrow> hints" where
  "zeroes n = replicate n (Some 0)"

text \<open>Truthiness of an optional number: \<^verbatim>\<open>undefined\<close>, \<^verbatim>\<open>null\<close> and \<open>0\<close> are falsy.\<close>

definition truthy :: "real option \<Rightarrow> bool" where
  "truthy v = (case v of None \<Rightarrow> False | Some x \<Rightarrow> x \<noteq> 0)"

subsection \<open>Nodes and their attributes\<close>

text \<open>
  \<^verbatim>\<open>CellAttrs\<close> and \<^verbatim>\<open>RowAttrs\<close>. A cell may carry further attributes
  (\<^verbatim>\<open>cellAttributes\<close> of the schema): they are the record's extension, which
  \<^verbatim>\<open>{ ...attrs, colwidth }\<close> copies. The row's \<^verbatim>\<open>rowheight\<close> is the field
  \<open>row_rowheight\<close>.
\<close>

record CellAttrs =
  colspan :: nat
  rowspan :: nat
  colwidth :: "hints option"
  rowheight :: "hints option"

record RowAttrs =
  row_rowheight :: "hints option"

datatype 'a node = CellNode "'a CellAttrs_scheme" | RowNode RowAttrs

subsection \<open>The grid map\<close>

text \<open>
  \<^verbatim>\<open>TableMap\<close>: \<open>map_t\<close> is its \<^verbatim>\<open>map\<close> array of cell offsets, relative to
  the start of the table's content. \<open>slot\<close> is \<^verbatim>\<open>map.map[i]\<close>, \<^verbatim>\<open>undefined\<close>
  outside the array.
\<close>

record TableMap =
  width :: nat
  height :: nat
  map_t :: "nat list"

definition slot :: "TableMap \<Rightarrow> int \<Rightarrow> nat option" where
  "slot m i = (if 0 \<le> i \<and> nat i < length (map_t m) then Some (map_t m ! nat i) else None)"

text \<open>\<^verbatim>\<open>Array.prototype.indexOf\<close>: the first index of the value, \<open>-1\<close> when absent.\<close>

fun indexOf :: "nat list \<Rightarrow> nat \<Rightarrow> int" where
  "indexOf [] x = -1"
| "indexOf (y # ys) x =
     (if y = x then 0 else (let i = indexOf ys x in if i < 0 then -1 else i + 1))"

text \<open>
  Modelled from the spec: \<^verbatim>\<open>TableMap.colCount\<close> and \<^verbatim>\<open>TableMap.rowCount\<close>
  (\<^verbatim>\<open>tablemap.ts\<close> is not among the sources). They "scan the flat map
  left-to-right/top-to-bottom for the first slot equal to \<open>offset\<close> and return its
  column/row". The spec does not say what happens when no slot holds the offset; the
  model returns \<open>None\<close> there and the callers stop with an error.
\<close>

definition colCount :: "TableMap \<Rightarrow> nat \<Rightarrow> nat option" where
  "colCount m pos =
     (let i = indexOf (map_t m) pos in if i < 0 then None else Some (nat i mod width m))"

definition rowCount :: "TableMap \<Rightarrow> nat \<Rightarrow> nat option" where
  "rowCount m pos =
     (let i = indexOf (map_t m) pos in if i < 0 then None else Some (nat i div width m))"

subsection \<open>The document around a table\<close>

text \<open>
  The commit functions see the document through \<^verbatim>\<open>view.state.doc.resolve(cell)\<close>:
  the enclosing table \<^verbatim>\<open>$cell.node(-1)\<close>, the start of its content
  \<^verbatim>\<open>$cell.start(-1)\<close> and its grid map \<^verbatim>\<open>TableMap.get(table)\<close>. The model
  holds one table: \<open>table\<close> is \<^verbatim>\<open>table.nodeAt(pos)\<close> for the offsets at which a
  row or a cell starts (other offsets, inside a cell's content, are \<open>None\<close>),
  \<open>tablemap\<close> is the table's grid map, which \<^verbatim>\<open>tablemap.ts\<close> computes and the
  model takes as given. A position before \<open>start\<close> is not inside the table:
  it has no enclosing table node, and reading the grid map of \<^verbatim>\<open>undefined\<close> is a
  \<open>TypeError\<close>.
\<close>

record 'a Doc =
  start :: nat
  table :: "nat \<Rightarrow> 'a node option"
  tablemap :: TableMap

text \<open>
  \<^verbatim>\<open>$cell.before()\<close>, relative to the table's content: the offset at which the
  node around the position starts, that is the nearest row start before a cell's offset.
\<close>

fun before :: "(nat \<Rightarrow> 'a node option) \<Rightarrow> nat \<Rightarrow> nat option" where
  "before t 0 = None"
| "before t (Suc p) = (case t p of Some (RowNode _) \<Rightarrow> Some p | _ \<Rightarrow> before t p)"

text \<open>
  A transaction is the list of its steps; every \<^verbatim>\<open>tr.setNodeMarkup(pos, null, attrs)\<close>
  adds one, and \<^verbatim>\<open>tr.docChanged\<close> holds when there is at least one. The node
  keeps its type, so the new attributes are tagged with it. Changing attributes changes
  no node size: offsets and the grid map stay the same when a step is applied.
\<close>

datatype 'a step = SetNodeMarkup nat "'a node"

fun applyStep :: "'a Doc \<Rightarrow> 'a step \<Rightarrow> 'a Doc" where
  "applyStep doc (SetNodeMarkup p n) =
     (if p < start doc then doc else doc\<lparr>table := (table doc)(p - start doc \<mapsto> n)\<rparr>)"

text \<open>\<^verbatim>\<open>if (tr.docChanged) view.dispatch(tr)\<close>: \<open>None\<close> is a dropped transaction.\<close>

definition dispatchIfChanged :: "'a step list \<Rightarrow> 'a step list option" where
  "dispatchIfChanged tr = (if tr \<noteq> [] then Some tr else None)"

definition dispatch :: "'a Doc \<Rightarrow> 'a step list option \<Rightarrow> 'a Doc" where
  "dispatch doc tr = (case tr of None \<Rightarrow> doc | Some steps \<Rightarrow> foldl applyStep doc steps)"

subsection \<open>Committing a size\<close>

datatype error = TypeError | RangeError

text \<open>
  A \<^verbatim>\<open>for\<close> loop over grid rows or columns whose body adds steps to the
  transaction; an exception in the body ends the loop.
\<close>

fun forEach :: "(nat \<Rightarrow> error + 'a step list) \<Rightarrow> nat list \<Rightarrow> error + 'a step list" where
  "forEach body [] = Inr []"
| "forEach body (i # rest) =
     (case body i of
        Inl e \<Rightarrow> Inl e
      | Inr steps \<Rightarrow>
          (case forEach body rest of Inl e \<Rightarrow> Inl e | Inr steps' \<Rightarrow> Inr (steps @ steps')))"

text \<open>
  The body of the loop of \<^verbatim>\<open>updateColumnWidth\<close> at grid row \<open>row\<close>, for the
  target column \<open>col\<close>. \<open>Inr []\<close> is a \<^verbatim>\<open>continue\<close>. Where the slot is
  outside the map or no node is at its offset, \<^verbatim>\<open>table.nodeAt(pos)!.attrs\<close> raises
  a \<open>TypeError\<close>; a slot that holds the offset of a node other than a cell is not a
  grid map's, and the model stops there with the same error. The index is an
  \<^typ>\<open>int\<close>: \<^verbatim>\<open>col - map.colCount(pos)\<close> is negative when the first slot of
  the cell lies in a later column.
\<close>

definition columnBody :: "'a Doc \<Rightarrow> int \<Rightarrow> real \<Rightarrow> nat \<Rightarrow> error + 'a step list" where
  "columnBody doc col w row =
     (let m = tablemap doc;
          mapIndex = int row * int (width m) + col
      in if row \<noteq> 0 \<and> slot m mapIndex = slot m (mapIndex - int (width m)) then Inr []
         else case slot m mapIndex of
           None \<Rightarrow> Inl TypeError
         | Some pos \<Rightarrow>
             (case table doc pos of
                Some (CellNode attrs) \<Rightarrow>
                  (case (if colspan attrs = 1 then Some 0
                         else map_option (\<lambda>c. col - int c) (colCount m pos)) of
                     None \<Rightarrow> Inl RangeError
                   | Some index \<Rightarrow>
                       if colwidth attrs \<noteq> None \<and> get_at (the (colwidth attrs)) index = Some w
                       then Inr []
                       else
                         (let cw = (case colwidth attrs of
                                      Some c \<Rightarrow> c
                                    | None \<Rightarrow> zeroes (colspan attrs))
                          in Inr [SetNodeMarkup (start doc + pos)
                                    (CellNode (attrs\<lparr>colwidth := Some (set_at cw index w)\<rparr>))]))
              | _ \<Rightarrow> Inl TypeError))"

definition updateColumnWidth :: "'a Doc \<Rightarrow> nat \<Rightarrow> real \<Rightarrow> error + 'a step list option" where
  "updateColumnWidth doc cell w =
     (if cell < start doc then Inl TypeError
      else
        let m = tablemap doc; p = cell - start doc in
        case colCount m p of
          None \<Rightarrow> Inl RangeError
        | Some c \<Rightarrow>
            (case table doc p of
               Some (CellNode cattrs) \<Rightarrow>
                 (let col = int c + int (colspan cattrs) - 1 in
                  case forEach (columnBody doc col w) [0..<height m] of
                    Inl e \<Rightarrow> Inl e
                  | Inr tr \<Rightarrow> Inr (dispatchIfChanged tr))
             | _ \<Rightarrow> Inl TypeError))"

text \<open>
  The body of the loop of \<^verbatim>\<open>updateRowHeight\<close> at grid column \<open>col\<close>, for the
  target row \<open>row\<close>. The guard of its \<^verbatim>\<open>continue\<close> tests \<^verbatim>\<open>row\<close>, as the
  source does.
\<close>

definition rowBody :: "'a Doc \<Rightarrow> int \<Rightarrow> real \<Rightarrow> nat \<Rightarrow> error + 'a step list" where
  "rowBody doc row h col =
     (let m = tablemap doc;
          mapIndex = int col + row * int (width m)
      in if row \<noteq> 0 \<and> slot m mapIndex = slot m (mapIndex - 1) then Inr []
         else case slot m mapIndex of
           None \<Rightarrow> Inl TypeError
         | Some pos \<Rightarrow>
             (case table doc pos of
                Some (CellNode attrs) \<Rightarrow>
                  (case (if rowspan attrs = 1 then Some 0
                         else map_option (\<lambda>r. row - int r) (rowCount m pos)) of
                     None \<Rightarrow> Inl RangeError
                   | Some index \<Rightarrow>
                       if rowheight attrs \<noteq> None \<and> get_at (the (rowheight attrs)) index = Some h
                       then Inr []
                       else
                         (let rh = (case rowheight attrs of
                                      Some r \<Rightarrow> r
                                    | None \<Rightarrow> zeroes (rowspan attrs))
                          in Inr [SetNodeMarkup (start doc + pos)
                                    (CellNode (attrs\<lparr>rowheight := Some (set_at rh index h)\<rparr>))]))
              | _ \<Rightarrow> Inl TypeError))"

text \<open>
  After the loop the row around the handle's cell, at \<^verbatim>\<open>$cell.before()\<close>, gets
  \<^verbatim>\<open>rowheight: [height]\<close>. The other attributes spread into the new object are
  those of \<^verbatim>\<open>$row.node()\<close>; a row node has the one attribute \<^verbatim>\<open>rowheight\<close>,
  so the row's new attributes are \<open>\<lparr>row_rowheight = Some [Some h]\<rparr>\<close> whatever they
  are.
\<close>

definition updateRowHeight :: "'a Doc \<Rightarrow> nat \<Rightarrow> real \<Rightarrow> error + 'a step list option" where
  "updateRowHeight doc cell h =
     (if cell < start doc then Inl TypeError
      else
        let m = tablemap doc; p = cell - start doc in
        case rowCount m p of
          None \<Rightarrow> Inl RangeError
        | Some r \<Rightarrow>
            (case table doc p of
               Some (CellNode cattrs) \<Rightarrow>
                 (let row = int r + int (rowspan cattrs) - 1 in
                  case forEach (rowBody doc row h) [0..<width m] of
                    Inl e \<Rightarrow> Inl e
                  | Inr tr \<Rightarrow>
                      (case before (table doc) p of
                         None \<Rightarrow> Inl RangeError
                       | Some rowPos \<Rightarrow>
                           Inr (dispatchIfChanged
                                  (tr @ [SetNodeMarkup (start doc + rowPos)
                                           (RowNode \<lparr>row_rowheight = Some [Some h]\<rparr>)]))))
             | _ \<Rightarrow> Inl TypeError))"

subsection \<open>The size a drag starts from\<close>

text \<open>
  The loop of \<^verbatim>\<open>currentColWidth\<close> and \<^verbatim>\<open>currentRowCellHeight\<close> over the
  spanned indices: each hinted slot is taken off the measured size and off the number
  of parts.
\<close>

fun subtractHinted :: "hints \<Rightarrow> nat list \<Rightarrow> real \<times> int \<Rightarrow> real \<times> int" where
  "subtractHinted hs [] (domSize, parts) = (domSize, parts)"
| "subtractHinted hs (i # rest) (domSize, parts) =
     (if truthy (get_at hs (int i))
      then subtractHinted hs rest (domSize - the (get_at hs (int i)), parts - 1)
      else subtractHinted hs rest (domSize, parts))"

text \<open>
  \<open>offsetWidth\<close> (\<open>offsetHeight\<close>) is the size of the cell's box, which the source
  measures on the rendered element. The result is \<open>None\<close> when the division is by
  zero parts, where JavaScript yields an infinity or \<^verbatim>\<open>NaN\<close>.
\<close>

definition currentColWidth :: "real \<Rightarrow> 'a CellAttrs_scheme \<Rightarrow> real option" where
  "currentColWidth offsetWidth attrs =
     (let width = (case colwidth attrs of
                     None \<Rightarrow> None
                   | Some cw \<Rightarrow> get_at cw (int (length cw) - 1))
      in if truthy width then width
         else
           (let (domWidth, parts) =
                  (case colwidth attrs of
                     None \<Rightarrow> (offsetWidth, int (colspan attrs))
                   | Some cw \<Rightarrow>
                       subtractHinted cw [0..<colspan attrs] (offsetWidth, int (colspan attrs)))
            in if parts = 0 then None else Some (domWidth / real_of_int parts)))"

definition currentRowCellHeight :: "real \<Rightarrow> 'a CellAttrs_scheme \<Rightarrow> real option" where
  "currentRowCellHeight offsetHeight attrs =
     (let height = (case rowheight attrs of
                      None \<Rightarrow> None
                    | Some rh \<Rightarrow> get_at rh (int (rowspan attrs) - 1))
      in if truthy height then height
         else
           (let (domHeight, parts) =
                  (case rowheight attrs of
                     None \<Rightarrow> (offsetHeight, int (rowspan attrs))
                   | Some rh \<Rightarrow>
                       subtractHinted rh [0..<rowspan attrs] (offsetHeight, int (rowspan attrs)))
            in if parts = 0 then None else Some (domHeight / real_of_int parts)))"

text \<open>
  The same size in the spec's words: the stored hint of the last spanned slot when
  it is present and not zero; otherwise the measured size less the present non-zero
  hints, divided by the number of spanned slots without one.
\<close>

definition hintOf :: "hints option \<Rightarrow> nat \<Rightarrow> real option" where
  "hintOf hs i = (case hs of None \<Rightarrow> None | Some xs \<Rightarrow> get_at xs (int i))"

definition hinted :: "nat \<Rightarrow> hints option \<Rightarrow> nat list" where
  "hinted n hs = filter (\<lambda>i. truthy (hintOf hs i)) [0..<n]"

definition effectiveSize :: "nat \<Rightarrow> hints option \<Rightarrow> real \<Rightarrow> real" where
  "effectiveSize n hs measured =
     (if truthy (hintOf hs (n - 1)) then the (hintOf hs (n - 1))
      else (measured - sum_list (map (\<lambda>i. the (hintOf hs i)) (hinted n hs)))
             / real (n - length (hinted n hs)))"


subsection \<open>Edge detection\<close>

text \<open>
  What \<^verbatim>\<open>edgeCell\<close> asks of the editor: \<open>posAtCoords\<close> is
  \<^verbatim>\<open>view.posAtCoords\<close> (\<open>None\<close> when nothing is found) and \<open>cellAround\<close> is
  \<^verbatim>\<open>cellAround(view.state.doc.resolve(pos))\<close> of \<^verbatim>\<open>util.ts\<close>, of whose result the
  position \<^verbatim>\<open>$cell.pos\<close>, the table start \<^verbatim>\<open>$cell.start(-1)\<close> and the grid map
  \<^verbatim>\<open>TableMap.get($cell.node(-1))\<close> are read. The result of \<open>edgeCell\<close> is
  \<open>None\<close> where the source adds \<^verbatim>\<open>undefined\<close> to the start and returns
  \<^verbatim>\<open>NaN\<close>. A cell position before the table start has no slot in the map, so
  its index is \<open>-1\<close>. \<^verbatim>\<open>index % map.width == 0\<close> holds when the width is not zero
  and divides the index; \<^verbatim>\<open>Math.floor(index / map.width) == 0\<close> when the width is
  not zero and the floor of the quotient is zero.
\<close>

datatype Side = Top | Bottom | Left | Right

record Coords =
  c_left :: real
  c_top :: real

record CellAround =
  cpos :: nat
  cstart :: nat
  cmap :: TableMap

record View =
  posAtCoords :: "Coords \<Rightarrow> nat option"
  cellAround :: "nat \<Rightarrow> CellAround option"

definition edgeCell :: "View \<Rightarrow> MouseEvent \<Rightarrow> Side \<Rightarrow> real \<Rightarrow> int option" where
  "edgeCell view event side handleWidth =
     (let offset = (if side = Right \<or> side = Bottom then - handleWidth else handleWidth);
          found = posAtCoords view
                    (if side = Right \<or> side = Left
                     then \<lparr>c_left = clientX event + offset, c_top = clientY event\<rparr>
                     else \<lparr>c_left = clientX event, c_top = clientY event + offset\<rparr>)
      in case found of
           None \<Rightarrow> Some (-1)
         | Some pos \<Rightarrow>
             (case cellAround view pos of
                None \<Rightarrow> Some (-1)
              | Some cell \<Rightarrow>
                  if side = Right \<or> side = Bottom then Some (int (cpos cell))
                  else
                    (let m = cmap cell;
                         start = cstart cell;
                         index = (if cpos cell < start then -1
                                  else indexOf (map_t m) (cpos cell - start))
                     in if side = Left then
                          (if width m \<noteq> 0 \<and> \<bar>index\<bar> mod int (width m) = 0 then Some (-1)
                           else map_option (\<lambda>p. int (start + p)) (slot m (index - 1)))
                        else
                          (if width m \<noteq> 0 \<and> index div int (width m) = 0 then Some (-1)
                           else map_option (\<lambda>p. int (start + p))
                                  (slot m (index - int (width m)))))))"

text \<open>
  A grid of two rows and two columns of single cells, each 100 wide and 30 high, in
  a table whose content starts at position 1; the cells are at positions 2, 6, 12
  and 16, and a point inside a cell resolves to a position inside that cell.
\<close>

definition map_2x2 :: TableMap where
  "map_2x2 = \<lparr>width = 2, height = 2, map_t = [1, 5, 11, 15]\<rparr>"

definition view_2x2 :: View where
  "view_2x2 =
     \<lparr>posAtCoords = (\<lambda>c.
        if 0 \<le> c_left c \<and> c_left c < 200 \<and> 0 \<le> c_top c \<and> c_top c < 60
        then Some ((if c_top c < 30 then (if c_left c < 100 then 2 else 6)
                    else (if c_left c < 100 then 12 else 16)) + 2)
        else None),
      cellAround = (\<lambda>p.
        if 2 \<le> p \<and> p < 6 then Some \<lparr>cpos = 2, cstart = 1, cmap = map_2x2\<rparr>
        else if 6 \<le> p \<and> p < 10 then Some \<lparr>cpos = 6, cstart = 1, cmap = map_2x2\<rparr>
        else if 12 \<le> p \<and> p < 16 then Some \<lparr>cpos = 12, cstart = 1, cmap = map_2x2\<rparr>
        else if 16 \<le> p \<and> p < 20 then Some \<lparr>cpos = 16, cstart = 1, cmap = map_2x2\<rparr>
        else None)\<rparr>"


subsection \<open>Parsing attributes from the DOM\<close>

text \<open>
  \<^verbatim>\<open>getRowAttrs\<close> and \<^verbatim>\<open>getCellAttrs\<close> of \<^verbatim>\<open>schema.ts\<close>. An attribute
  object is a map from property names to values; a value is a number (\<open>None\<close> is
  \<^verbatim>\<open>NaN\<close>), a hint array or \<^verbatim>\<open>null\<close>, or a value of an extra attribute. The
  DOM argument is a string or an element, of which only \<^verbatim>\<open>getAttribute\<close> is used.
\<close>

datatype 'v jsval = JNum "real option" | JHints "hints option" | JOther 'v

type_synonym 'v attrs = "string \<Rightarrow> 'v jsval option"

datatype dom = DomString string | DomElement "string \<Rightarrow> string option"

text \<open>
  The test \<^verbatim>\<open>/^\d+(,\d+)*$/\<close>, as the automaton that reads groups of digits
  separated by single commas; its state is whether the current group has a digit.
\<close>

definition isDigit :: "char \<Rightarrow> bool" where
  "isDigit c = (c \<in> set ''0123456789'')"

fun digitGroups :: "bool \<Rightarrow> string \<Rightarrow> bool" where
  "digitGroups seen [] = seen"
| "digitGroups seen (c # cs) =
     (if isDigit c then digitGroups True cs
      else if c = CHR '','' \<and> seen then digitGroups False cs
      else False)"

definition test_sizes :: "string \<Rightarrow> bool" where
  "test_sizes s = digitGroups False s"

text \<open>\<^verbatim>\<open>s.split(',')\<close>.\<close>

fun split_comma :: "string \<Rightarrow> string list" where
  "split_comma [] = [[]]"
| "split_comma (c # cs) =
     (if c = CHR '','' then [] # split_comma cs
      else (case split_comma cs of
              [] \<Rightarrow> [[c]]
            | part # parts \<Rightarrow> (c # part) # parts))"

text \<open>
  The expression \<^verbatim>\<open>attr && /^\d+(,\d+)*$/.test(attr) ? attr.split(',').map((s) => Number(s)) : null\<close>,
  which the source writes out three times. \<open>toNumber\<close> is JavaScript's
  \<^verbatim>\<open>Number\<close> on strings.
\<close>

definition parseSizes :: "(string \<Rightarrow> real option) \<Rightarrow> string option \<Rightarrow> hints option" where
  "parseSizes toNumber attr =
     (case attr of
        None \<Rightarrow> None
      | Some s \<Rightarrow>
          if s \<noteq> [] \<and> test_sizes s then Some (map toNumber (split_comma s)) else None)"

text \<open>\<^verbatim>\<open>Number(dom.getAttribute(name) || 1)\<close>.\<close>

definition spanOf :: "(string \<Rightarrow> real option) \<Rightarrow> string option \<Rightarrow> real option" where
  "spanOf toNumber attr =
     (case attr of None \<Rightarrow> Some 1 | Some s \<Rightarrow> if s = [] then Some 1 else toNumber s)"

text \<open>
  The loop over \<^verbatim>\<open>extraAttrs\<close>: a property whose \<^verbatim>\<open>getFromDOM\<close> exists and
  returns a value other than \<^verbatim>\<open>null\<close> is set on the result.
\<close>

fun addExtra ::
  "dom \<Rightarrow> (string \<times> (dom \<Rightarrow> 'v jsval option) option) list \<Rightarrow> 'v attrs \<Rightarrow> 'v attrs" where
  "addExtra d [] result = result"
| "addExtra d ((prop, getFromDOM) # rest) result =
     (case getFromDOM of
        None \<Rightarrow> addExtra d rest result
      | Some getter \<Rightarrow>
          (case getter d of
             None \<Rightarrow> addExtra d rest result
           | Some v \<Rightarrow> addExtra d rest (result(prop \<mapsto> v))))"

definition getRowAttrs ::
  "(string \<Rightarrow> real option) \<Rightarrow> dom \<Rightarrow> (string \<times> (dom \<Rightarrow> 'v jsval option) option) list \<Rightarrow> 'v attrs"
where
  "getRowAttrs toNumber d extraAttrs =
     (case d of
        DomString s \<Rightarrow> Map.empty
      | DomElement getAttribute \<Rightarrow>
          (let heights = parseSizes toNumber (getAttribute ''data-rowheight'');
               rowspan = (1::nat);
               result = [''rowheight'' \<mapsto>
                           JHints (if heights \<noteq> None \<and> length (the heights) = rowspan
                                   then heights else None)]
           in addExtra d extraAttrs result))"

definition getCellAttrs ::
  "(string \<Rightarrow> real option) \<Rightarrow> dom \<Rightarrow> (string \<times> (dom \<Rightarrow> 'v jsval option) option) list \<Rightarrow> 'v attrs"
where
  "getCellAttrs toNumber d extraAttrs =
     (case d of
        DomString s \<Rightarrow> Map.empty
      | DomElement getAttribute \<Rightarrow>
          (let widths = parseSizes toNumber (getAttribute ''data-colwidth'');
               heights = parseSizes toNumber (getAttribute ''data-rowheight'');
               colspan = spanOf toNumber (getAttribute ''colspan'');
               rowspan = spanOf toNumber (getAttribute ''rowspan'');
               result = [''colspan'' \<mapsto> JNum colspan,
                         ''rowspan'' \<mapsto> JNum rowspan,
                         ''colwidth'' \<mapsto>
                           JHints (if widths \<noteq> None \<and> Some (real (length (the widths))) = colspan
                                   then widths else None),
                         ''rowheight'' \<mapsto>
                           JHints (if heights \<noteq> None \<and> Some (real (length (the heights))) = rowspan
                                   then heights else None)]
           in addExtra d extraAttrs result))"

text \<open>
  \<^verbatim>\<open>Number\<close> on a string of decimal digits (exact while the value is below
  \<open>2\<^sup>5\<^sup>3\<close>); \<open>None\<close> on any other string, which the examples do not use.
\<close>

definition decimal :: "string \<Rightarrow> real option" where
  "decimal s =
     (if s \<noteq> [] \<and> list_all isDigit s
      then Some (foldl (\<lambda>n c. 10 * n + real (of_char c - 48)) 0 s)
      else None)"



subsection \<open>Well-formed tables\<close>

text \<open>
  The data model's invariant on size hints: an array, when present, has exactly one
  entry per spanned column (row).
\<close>

definition wf_hints :: "nat \<Rightarrow> hints option \<Rightarrow> bool" where
  "wf_hints n h = (case h of None \<Rightarrow> True | Some xs \<Rightarrow> length xs = n)"

text \<open>
  The grid map's invariant, at slot \<open>i\<close>: the slot holds the offset of a cell, and
  the slot lies inside the rectangle of that cell's span, whose top-left corner
  \<open>colCount\<close> and \<open>rowCount\<close> give and which fits the grid.
\<close>

definition wf_slot :: "'a Doc \<Rightarrow> nat \<Rightarrow> bool" where
  "wf_slot doc i =
     (let m = tablemap doc; pos = map_t m ! i in
      case table doc pos of
        Some (CellNode a) \<Rightarrow>
          (case colCount m pos of
             None \<Rightarrow> False
           | Some c \<Rightarrow>
               (case rowCount m pos of
                  None \<Rightarrow> False
                | Some r \<Rightarrow>
                    c \<le> i mod width m \<and> i mod width m < c + colspan a \<and>
                    c + colspan a \<le> width m \<and>
                    r \<le> i div width m \<and> i div width m < r + rowspan a \<and>
                    r + rowspan a \<le> height m))
          \<and> wf_hints (colspan a) (colwidth a) \<and> wf_hints (rowspan a) (rowheight a)
      | _ \<Rightarrow> False)"

definition wf_doc :: "'a Doc \<Rightarrow> bool" where
  "wf_doc doc =
     (length (map_t (tablemap doc)) = width (tablemap doc) * height (tablemap doc) \<and>
      list_all (wf_slot doc) [0..<length (map_t (tablemap doc))])"

text \<open>
  What a commit is to write for a cell: the stored array, or a fresh array of zeros of
  the span's length when none is stored, with entry \<open>k\<close> alone set to the new size.
\<close>

definition touched :: "nat \<Rightarrow> hints option \<Rightarrow> nat \<Rightarrow> real \<Rightarrow> hints" where
  "touched n old k v =
     (case old of None \<Rightarrow> replicate n (Some 0) | Some xs \<Rightarrow> xs)[k := Some v]"


subsection \<open>What a commit may write\<close>

text \<open>
  A step of a column commit, read against the document it was computed from: it
  targets a cell and replaces the cell's attributes by the same attributes with
  \<open>colwidth\<close> alone changed, to the array \<open>touched\<close> gives for some local index
  \<open>k\<close> inside the span, an array as long as the cell's \<open>colspan\<close>.
\<close>

definition columnWrite :: "'a Doc \<Rightarrow> real \<Rightarrow> 'a step \<Rightarrow> bool" where
  "columnWrite doc w s =
     (case s of SetNodeMarkup p n \<Rightarrow>
        start doc \<le> p \<and>
        (case table doc (p - start doc) of
           Some (CellNode a) \<Rightarrow>
             (\<exists>k\<in>{0..<colspan a}.
                n = CellNode (a\<lparr>colwidth := Some (touched (colspan a) (colwidth a) k w)\<rparr>) \<and>
                length (touched (colspan a) (colwidth a) k w) = colspan a)
         | _ \<Rightarrow> False))"

text \<open>
  A step of a row commit: the same for \<open>rowheight\<close> and \<open>rowspan\<close>, or the
  write of a row node's own one-entry \<open>rowheight\<close>.
\<close>

definition rowWrite :: "'a Doc \<Rightarrow> real \<Rightarrow> 'a step \<Rightarrow> bool" where
  "rowWrite doc h s =
     (case s of SetNodeMarkup p n \<Rightarrow>
        start doc \<le> p \<and>
        (case table doc (p - start doc) of
           Some (CellNode a) \<Rightarrow>
             (\<exists>k\<in>{0..<rowspan a}.
                n = CellNode (a\<lparr>rowheight := Some (touched (rowspan a) (rowheight a) k h)\<rparr>) \<and>
                length (touched (rowspan a) (rowheight a) k h) = rowspan a)
         | Some (RowNode ra) \<Rightarrow> n = RowNode \<lparr>row_rowheight = Some [Some h]\<rparr>
         | None \<Rightarrow> False))"

text \<open>
  The node a column (row) commit leaves at the offset \<open>q\<close> of a cell it updates,
  for the target column \<open>col\<close> (row \<open>row\<close>): the cell with the hint of its local
  index set. At the offset of a row node a row commit leaves the row with its own
  one-entry hint.
\<close>

definition columnNode :: "'a Doc \<Rightarrow> nat \<Rightarrow> real \<Rightarrow> nat \<Rightarrow> 'a node" where
  "columnNode doc col w q =
     (case table doc q of
        Some (CellNode a) \<Rightarrow>
          CellNode (a\<lparr>colwidth :=
            Some (touched (colspan a) (colwidth a) (col - the (colCount (tablemap doc) q)) w)\<rparr>)
      | Some (RowNode ra) \<Rightarrow> RowNode ra
      | None \<Rightarrow> RowNode \<lparr>row_rowheight = None\<rparr>)"

definition rowNode :: "'a Doc \<Rightarrow> nat \<Rightarrow> real \<Rightarrow> nat \<Rightarrow> 'a node" where
  "rowNode doc row h q =
     (case table doc q of
        Some (CellNode a) \<Rightarrow>
          CellNode (a\<lparr>rowheight :=
            Some (touched (rowspan a) (rowheight a) (row - the (rowCount (tablemap doc) q)) h)\<rparr>)
      | _ \<Rightarrow> RowNode \<lparr>row_rowheight = Some [Some h]\<rparr>)"


text \<open>
  A step on a cell changes the cell: the attributes it writes differ from the ones
  the document holds at that position.
\<close>

definition changesCell :: "'a Doc \<Rightarrow> 'a step \<Rightarrow> bool" where
  "changesCell doc s =
     (case s of SetNodeMarkup p n \<Rightarrow>
        (case n of
           CellNode a \<Rightarrow> start doc \<le> p \<and> table doc (p - start doc) \<noteq> Some n
         | RowNode ra \<Rightarrow> True))"


subsection \<open>Example tables\<close>

text \<open>
  A table of two rows and two columns whose content starts at position 1. The first
  row (offset 0) holds a cell spanning both rows (offset 1) and a cell with a stored
  width (offset 5); the second row (offset 10) holds one cell (offset 11). Every cell
  node has size 4.
\<close>

definition doc_rowspan :: "unit Doc" where
  "doc_rowspan =
     \<lparr>start = 1,
      table = map_of
        [(0, RowNode \<lparr>row_rowheight = None\<rparr>),
         (1, CellNode \<lparr>colspan = 1, rowspan = 2, colwidth = None, rowheight = None\<rparr>),
         (5, CellNode \<lparr>colspan = 1, rowspan = 1, colwidth = Some [Some 80], rowheight = None\<rparr>),
         (10, RowNode \<lparr>row_rowheight = None\<rparr>),
         (11, CellNode \<lparr>colspan = 1, rowspan = 1, colwidth = None, rowheight = None\<rparr>)],
      tablemap = \<lparr>width = 2, height = 2, map_t = [1, 5, 1, 11]\<rparr>\<rparr>"


text \<open>
  A table of one row and two columns whose content starts at position 1: the row
  (offset 0) holds a single cell spanning both columns (offset 1).
\<close>

definition doc_colspan :: "unit Doc" where
  "doc_colspan =
     \<lparr>start = 1,
      table = map_of
        [(0, RowNode \<lparr>row_rowheight = None\<rparr>),
         (1, CellNode \<lparr>colspan = 2, rowspan = 1, colwidth = None, rowheight = None\<rparr>)],
      tablemap = \<lparr>width = 2, height = 1, map_t = [1, 1]\<rparr>\<rparr>"

section \<open>Properties\<close>

subsection \<open>Auxiliary facts\<close>

lemma forEach_Inr_mem:
  "forEach body xs = Inr tr \<Longrightarrow> s \<in> set tr \<Longrightarrow>
     \<exists>i\<in>set xs. \<exists>steps. body i = Inr steps \<and> s \<in> set steps"
  by (induction xs arbitrary: tr) (auto split: sum.splits)

lemma forEach_Inr_each:
  "forEach body xs = Inr tr \<Longrightarrow> i \<in> set xs \<Longrightarrow>
     \<exists>steps. body i = Inr steps \<and> set steps \<subseteq> set tr"
proof (induction xs arbitrary: tr)
  case Nil
  then show ?case by simp
next
  case (Cons a xs)
  from Cons.prems(1) obtain s1 s2 where b: "body a = Inr s1" and f: "forEach body xs = Inr s2"
    and tr: "tr = s1 @ s2"
    by (auto split: sum.splits)
  show ?case
  proof (cases "i = a")
    case True
    then show ?thesis using b tr by auto
  next
    case False
    then have "i \<in> set xs" using Cons.prems(2) by simp
    from Cons.IH[OF f this] show ?thesis using tr by auto
  qed
qed

lemma forEach_all_skip:
  "(\<And>i. i \<in> set xs \<Longrightarrow> body i = Inr []) \<Longrightarrow> forEach body xs = Inr []"
  by (induction xs) auto

lemma indexOf_bounds: "indexOf xs x < int (length xs) \<and> -1 \<le> indexOf xs x"
  by (induction xs) (auto simp: Let_def)

lemma indexOf_found: "0 \<le> indexOf xs x \<Longrightarrow> xs ! nat (indexOf xs x) = x"
  by (induction xs) (auto simp: Let_def nat_add_distrib split: if_splits)

lemma indexOf_mem: "x \<in> set xs \<Longrightarrow> 0 \<le> indexOf xs x"
  by (induction xs) (auto simp: Let_def)

lemma wf_docD:
  assumes "wf_doc doc" "i < length (map_t (tablemap doc))"
  shows "wf_slot doc i"
  using assms by (simp add: wf_doc_def list_all_iff)

lemma slot_grid:
  assumes "length (map_t m) = width m * height m" "row < height m" "col < width m"
  shows "slot m (int row * int (width m) + int col) = Some (map_t m ! (row * width m + col))"
    and "row * width m + col < length (map_t m)"
    and "(row * width m + col) mod width m = col"
    and "(row * width m + col) div width m = row"
proof -
  have "row * width m + col < (row + 1) * width m" using assms(3) by simp
  also have "\<dots> \<le> height m * width m"
  proof -
    have "row + 1 \<le> height m" using assms(2) by simp
    then show ?thesis by (rule mult_le_mono1)
  qed
  finally show lt: "row * width m + col < length (map_t m)" using assms(1) by (simp add: mult.commute)
  have "int row * int (width m) + int col = int (row * width m + col)" by simp
  then show "slot m (int row * int (width m) + int col) = Some (map_t m ! (row * width m + col))"
    using lt unfolding slot_def by (simp del: of_nat_add of_nat_mult)
  show "(row * width m + col) mod width m = col" using assms(3) by simp
  show "(row * width m + col) div width m = row" using assms(3) by simp
qed


lemma set_at_touched:
  assumes "wf_hints n old" "k < n"
  shows "set_at (case old of Some c \<Rightarrow> c | None \<Rightarrow> zeroes n) (int k) v = touched n old k v"
  using assms by (auto simp: set_at_def touched_def zeroes_def wf_hints_def split: option.splits)

lemma length_touched:
  "wf_hints n old \<Longrightarrow> length (touched n old k v) = n"
  by (auto simp: touched_def wf_hints_def split: option.splits)

lemma get_at_touched:
  "wf_hints n old \<Longrightarrow> k < n \<Longrightarrow> get_at (touched n old k v) (int k) = Some v"
  by (auto simp: touched_def wf_hints_def get_at_def split: option.splits)

lemma columnBody_at:
  assumes "slot (tablemap doc) (int row * int (width (tablemap doc)) + col) = Some pos"
    and "table doc pos = Some (CellNode a)"
    and "(if colspan a = 1 then Some 0
          else map_option (\<lambda>c. col - int c) (colCount (tablemap doc) pos)) = Some index"
  shows "columnBody doc col w row =
     (if row \<noteq> 0 \<and>
         Some pos = slot (tablemap doc)
                      (int row * int (width (tablemap doc)) + col - int (width (tablemap doc)))
      then Inr []
      else if colwidth a \<noteq> None \<and> get_at (the (colwidth a)) index = Some w
      then Inr []
      else Inr [SetNodeMarkup (start doc + pos)
                  (CellNode (a\<lparr>colwidth :=
                     Some (set_at (case colwidth a of Some c \<Rightarrow> c | None \<Rightarrow> zeroes (colspan a))
                             index w)\<rparr>))])"
  unfolding columnBody_def Let_def
  by (simp only: assms option.case node.case)

lemma columnBody_grid:
  fixes doc :: "'a Doc"
  defines "m \<equiv> tablemap doc"
  assumes len: "length (map_t m) = width m * height m"
    and row: "row < height m" and col: "col < width m"
    and cell: "table doc (map_t m ! (row * width m + col)) = Some (CellNode a)"
    and cc: "colCount m (map_t m ! (row * width m + col)) = Some c"
    and c1: "c \<le> col" and c2: "col < c + colspan a"
    and hints: "wf_hints (colspan a) (colwidth a)"
  shows "columnBody doc (int col) w row =
     (if row \<noteq> 0 \<and> map_t m ! (row * width m + col) = map_t m ! ((row - 1) * width m + col)
      then Inr []
      else if colwidth a \<noteq> None \<and> get_at (the (colwidth a)) (int (col - c)) = Some w
      then Inr []
      else Inr [SetNodeMarkup (start doc + map_t m ! (row * width m + col))
                  (CellNode (a\<lparr>colwidth := Some (touched (colspan a) (colwidth a) (col - c) w)\<rparr>))])"
proof -
  let ?i = "row * width m + col"
  have s1: "slot m (int row * int (width m) + int col) = Some (map_t m ! ?i)"
    using slot_grid(1)[OF len row col] .
  have s2: "slot m (int row * int (width m) + int col - int (width m))
              = Some (map_t m ! ((row - 1) * width m + col))" if "row \<noteq> 0"
  proof -
    have r': "row - 1 < height m" using row by simp
    have eq: "int row * int (width m) + int col - int (width m)
            = int (row - 1) * int (width m) + int col"
      using that by (simp add: of_nat_diff algebra_simps)
    show ?thesis by (subst eq) (rule slot_grid(1)[OF len r' col])
  qed
  have idx: "(if colspan a = 1 then Some 0
              else map_option (\<lambda>c. int col - int c) (colCount m (map_t m ! ?i)))
             = Some (int (col - c))"
    using cc c1 c2 by (auto simp: of_nat_diff)
  have kk: "col - c < colspan a" using c1 c2 by simp
  have g: "(row \<noteq> 0 \<and> Some (map_t m ! ?i)
              = slot m (int row * int (width m) + int col - int (width m)))
           = (row \<noteq> 0 \<and> map_t m ! ?i = map_t m ! ((row - 1) * width m + col))"
    using s2 by auto
  show ?thesis
    unfolding columnBody_at[of doc row "int col", folded m_def, OF s1 cell idx] g
      set_at_touched[OF hints kk] ..
qed


lemma wf_slot_cell:
  assumes "wf_slot doc i"
  obtains a c r where
    "table doc (map_t (tablemap doc) ! i) = Some (CellNode a)"
    "colCount (tablemap doc) (map_t (tablemap doc) ! i) = Some c"
    "rowCount (tablemap doc) (map_t (tablemap doc) ! i) = Some r"
    "c \<le> i mod width (tablemap doc)" "i mod width (tablemap doc) < c + colspan a"
    "c + colspan a \<le> width (tablemap doc)"
    "r \<le> i div width (tablemap doc)" "i div width (tablemap doc) < r + rowspan a"
    "r + rowspan a \<le> height (tablemap doc)"
    "wf_hints (colspan a) (colwidth a)" "wf_hints (rowspan a) (rowheight a)"
  using assms unfolding wf_slot_def Let_def
  by (auto split: option.splits node.splits)

lemma counted_in_map:
  assumes "colCount m p = Some c \<or> rowCount m p = Some r"
  shows "nat (indexOf (map_t m) p) < length (map_t m) \<and> map_t m ! nat (indexOf (map_t m) p) = p"
proof -
  have "0 \<le> indexOf (map_t m) p"
    using assms by (auto simp: colCount_def rowCount_def Let_def split: if_splits)
  then show ?thesis
    using indexOf_bounds[of "map_t m" p] indexOf_found[of "map_t m" p] by auto
qed

lemma handle_cell:
  assumes wf: "wf_doc doc"
    and cnt: "colCount (tablemap doc) p = Some c \<or> rowCount (tablemap doc) p = Some r"
    and cell: "table doc p = Some (CellNode a)"
  shows "1 \<le> colspan a" "1 \<le> rowspan a"
    "colCount (tablemap doc) p = Some c \<Longrightarrow> c + colspan a \<le> width (tablemap doc)"
    "rowCount (tablemap doc) p = Some r \<Longrightarrow> r + rowspan a \<le> height (tablemap doc)"
proof -
  let ?m = "tablemap doc"
  let ?i = "nat (indexOf (map_t ?m) p)"
  from counted_in_map[OF cnt] have i: "?i < length (map_t ?m)" and at: "map_t ?m ! ?i = p"
    by auto
  from wf_docD[OF wf i] have "wf_slot doc ?i" .
  then show "1 \<le> colspan a" "1 \<le> rowspan a"
    "colCount ?m p = Some c \<Longrightarrow> c + colspan a \<le> width ?m"
    "rowCount ?m p = Some r \<Longrightarrow> r + rowspan a \<le> height ?m"
    using cell at by (auto elim!: wf_slot_cell)
qed

lemma columnBody_wf:
  assumes wf: "wf_doc doc" and row: "row < height (tablemap doc)"
    and col: "col < width (tablemap doc)"
  obtains a c where
    "table doc (map_t (tablemap doc) ! (row * width (tablemap doc) + col)) = Some (CellNode a)"
    "colCount (tablemap doc) (map_t (tablemap doc) ! (row * width (tablemap doc) + col)) = Some c"
    "c \<le> col" "col < c + colspan a" "wf_hints (colspan a) (colwidth a)"
proof -
  let ?m = "tablemap doc"
  have len: "length (map_t ?m) = width ?m * height ?m" using wf by (simp add: wf_doc_def)
  from slot_grid(2-4)[OF len row col] wf_docD[OF wf]
  have "wf_slot doc (row * width ?m + col)" and "(row * width ?m + col) mod width ?m = col"
    by auto
  then show thesis using that by (auto elim!: wf_slot_cell)
qed


lemma slot_nat: "i < length (map_t m) \<Longrightarrow> slot m (int i) = Some (map_t m ! i)"
  by (simp add: slot_def)

lemma rowBody_at:
  assumes "slot (tablemap doc) (int col + row * int (width (tablemap doc))) = Some pos"
    and "table doc pos = Some (CellNode a)"
    and "(if rowspan a = 1 then Some 0
          else map_option (\<lambda>r. row - int r) (rowCount (tablemap doc) pos)) = Some index"
  shows "rowBody doc row h col =
     (if row \<noteq> 0 \<and>
         Some pos = slot (tablemap doc) (int col + row * int (width (tablemap doc)) - 1)
      then Inr []
      else if rowheight a \<noteq> None \<and> get_at (the (rowheight a)) index = Some h
      then Inr []
      else Inr [SetNodeMarkup (start doc + pos)
                  (CellNode (a\<lparr>rowheight :=
                     Some (set_at (case rowheight a of Some r \<Rightarrow> r | None \<Rightarrow> zeroes (rowspan a))
                             index h)\<rparr>))])"
  unfolding rowBody_def Let_def
  by (simp only: assms option.case node.case)

lemma rowBody_grid:
  fixes doc :: "'a Doc"
  defines "m \<equiv> tablemap doc"
  assumes len: "length (map_t m) = width m * height m"
    and row: "row < height m" and col: "col < width m"
    and cell: "table doc (map_t m ! (row * width m + col)) = Some (CellNode a)"
    and rc: "rowCount m (map_t m ! (row * width m + col)) = Some r"
    and r1: "r \<le> row" and r2: "row < r + rowspan a"
    and hints: "wf_hints (rowspan a) (rowheight a)"
  shows "rowBody doc (int row) h col =
     (if row \<noteq> 0 \<and> map_t m ! (row * width m + col) = map_t m ! (row * width m + col - 1)
      then Inr []
      else if rowheight a \<noteq> None \<and> get_at (the (rowheight a)) (int (row - r)) = Some h
      then Inr []
      else Inr [SetNodeMarkup (start doc + map_t m ! (row * width m + col))
                  (CellNode (a\<lparr>rowheight := Some (touched (rowspan a) (rowheight a) (row - r) h)\<rparr>))])"
proof -
  let ?i = "row * width m + col"
  have i: "?i < length (map_t m)" using slot_grid(2)[OF len row col] .
  have e1: "int col + int row * int (width m) = int ?i" by simp
  have s1: "slot m (int col + int row * int (width m)) = Some (map_t m ! ?i)"
    by (subst e1) (rule slot_nat[OF i])
  have s2: "slot m (int col + int row * int (width m) - 1) = Some (map_t m ! (?i - 1))"
    if "row \<noteq> 0"
  proof -
    have "0 < row" "0 < width m" using that col by auto
    then have "0 < row * width m" by simp
    then have "1 \<le> ?i" by linarith
    then have e2: "int col + int row * int (width m) - 1 = int (?i - 1)"
      by (simp add: of_nat_diff)
    have "?i - 1 < length (map_t m)" using i by simp
    then show ?thesis by (subst e2) (rule slot_nat)
  qed
  have idx: "(if rowspan a = 1 then Some 0
              else map_option (\<lambda>r. int row - int r) (rowCount m (map_t m ! ?i)))
             = Some (int (row - r))"
    using rc r1 r2 by (auto simp: of_nat_diff)
  have kk: "row - r < rowspan a" using r1 r2 by simp
  have g: "(row \<noteq> 0 \<and> Some (map_t m ! ?i) = slot m (int col + int row * int (width m) - 1))
           = (row \<noteq> 0 \<and> map_t m ! ?i = map_t m ! (?i - 1))"
    using s2 by auto
  have nz: "(int row \<noteq> 0) = (row \<noteq> 0)" by simp
  show ?thesis
    unfolding rowBody_at[of doc col "int row", folded m_def, OF s1 cell idx] nz g
      set_at_touched[OF hints kk] ..
qed

lemma rowBody_wf:
  assumes wf: "wf_doc doc" and row: "row < height (tablemap doc)"
    and col: "col < width (tablemap doc)"
  obtains a r where
    "table doc (map_t (tablemap doc) ! (row * width (tablemap doc) + col)) = Some (CellNode a)"
    "rowCount (tablemap doc) (map_t (tablemap doc) ! (row * width (tablemap doc) + col)) = Some r"
    "r \<le> row" "row < r + rowspan a" "wf_hints (rowspan a) (rowheight a)"
proof -
  let ?m = "tablemap doc"
  have len: "length (map_t ?m) = width ?m * height ?m" using wf by (simp add: wf_doc_def)
  from slot_grid(2-4)[OF len row col] wf_docD[OF wf]
  have "wf_slot doc (row * width ?m + col)" and "(row * width ?m + col) div width ?m = row"
    by auto
  then show thesis using that by (auto elim!: wf_slot_cell)
qed


lemma dispatchIfChanged_set:
  "dispatchIfChanged tr = Some tr' \<Longrightarrow> tr' = tr"
  by (auto simp: dispatchIfChanged_def split: if_splits)

lemma updateColumnWidth_loop:
  assumes wf: "wf_doc doc" and res: "updateColumnWidth doc cell w = Inr r"
  obtains c a tr where
    "start doc \<le> cell"
    "colCount (tablemap doc) (cell - start doc) = Some c"
    "table doc (cell - start doc) = Some (CellNode a)"
    "1 \<le> colspan a" "c + colspan a \<le> width (tablemap doc)"
    "forEach (columnBody doc (int (c + colspan a - 1)) w) [0..<height (tablemap doc)] = Inr tr"
    "r = dispatchIfChanged tr"
proof -
  let ?m = "tablemap doc" and ?p = "cell - start doc"
  from res have st: "start doc \<le> cell"
    by (auto simp: updateColumnWidth_def split: if_splits)
  from res st obtain c where c: "colCount ?m ?p = Some c"
    by (auto simp: updateColumnWidth_def Let_def split: option.splits)
  from res st c obtain a where a: "table doc ?p = Some (CellNode a)"
    by (auto simp: updateColumnWidth_def Let_def split: option.splits node.splits)
  from handle_cell[OF wf _ a, of c] c
  have sp: "1 \<le> colspan a" "c + colspan a \<le> width ?m" by auto
  then have e: "int c + int (colspan a) - 1 = int (c + colspan a - 1)" by (simp add: of_nat_diff)
  from res st c a obtain tr where
    "forEach (columnBody doc (int c + int (colspan a) - 1) w) [0..<height ?m] = Inr tr"
    "r = dispatchIfChanged tr"
    by (auto simp: updateColumnWidth_def Let_def split: sum.splits)
  then show thesis using that[OF st c a sp] unfolding e by blast
qed

lemma columnWrite_touched:
  assumes "table doc pos = Some (CellNode a)" "k < colspan a" "wf_hints (colspan a) (colwidth a)"
  shows "columnWrite doc w
           (SetNodeMarkup (start doc + pos)
              (CellNode (a\<lparr>colwidth := Some (touched (colspan a) (colwidth a) k w)\<rparr>)))"
  unfolding columnWrite_def using assms length_touched[OF assms(3)]
  by (auto intro!: bexI[of _ k])

lemma columnBody_writes:
  assumes wf: "wf_doc doc" and row: "row < height (tablemap doc)"
    and col: "col < width (tablemap doc)"
    and body: "columnBody doc (int col) w row = Inr steps"
  shows "list_all (columnWrite doc w) steps"
proof -
  let ?m = "tablemap doc"
  have len: "length (map_t ?m) = width ?m * height ?m" using wf by (simp add: wf_doc_def)
  from columnBody_wf[OF wf row col] obtain a c where
    f: "table doc (map_t ?m ! (row * width ?m + col)) = Some (CellNode a)"
       "colCount ?m (map_t ?m ! (row * width ?m + col)) = Some c"
       "c \<le> col" "col < c + colspan a" "wf_hints (colspan a) (colwidth a)"
    by blast
  have k: "col - c < colspan a" using f(3,4) by simp
  from body show ?thesis
    unfolding columnBody_grid[OF len row col f]
    using columnWrite_touched[OF f(1) k f(5)]
    by (auto split: if_splits)
qed


lemma updateRowHeight_loop:
  assumes wf: "wf_doc doc" and res: "updateRowHeight doc cell h = Inr res"
  obtains r a tr rp where
    "start doc \<le> cell"
    "rowCount (tablemap doc) (cell - start doc) = Some r"
    "table doc (cell - start doc) = Some (CellNode a)"
    "1 \<le> rowspan a" "r + rowspan a \<le> height (tablemap doc)"
    "forEach (rowBody doc (int (r + rowspan a - 1)) h) [0..<width (tablemap doc)] = Inr tr"
    "before (table doc) (cell - start doc) = Some rp"
    "res = dispatchIfChanged
             (tr @ [SetNodeMarkup (start doc + rp) (RowNode \<lparr>row_rowheight = Some [Some h]\<rparr>)])"
proof -
  let ?m = "tablemap doc" and ?p = "cell - start doc"
  from res have st: "start doc \<le> cell"
    by (auto simp: updateRowHeight_def split: if_splits)
  from res st obtain r where r: "rowCount ?m ?p = Some r"
    by (auto simp: updateRowHeight_def Let_def split: option.splits)
  from res st r obtain a where a: "table doc ?p = Some (CellNode a)"
    by (auto simp: updateRowHeight_def Let_def split: option.splits node.splits)
  from handle_cell[OF wf _ a, of _ r] r
  have sp: "1 \<le> rowspan a" "r + rowspan a \<le> height ?m" by auto
  then have e: "int r + int (rowspan a) - 1 = int (r + rowspan a - 1)" by (simp add: of_nat_diff)
  let ?loop = "forEach (rowBody doc (int r + int (rowspan a) - 1) h) [0..<width ?m]"
  from res st r a have unf:
    "(case ?loop of
        Inl e \<Rightarrow> Inl e
      | Inr tr \<Rightarrow>
          (case before (table doc) ?p of
             None \<Rightarrow> Inl RangeError
           | Some rowPos \<Rightarrow>
               Inr (dispatchIfChanged
                      (tr @ [SetNodeMarkup (start doc + rowPos)
                               (RowNode \<lparr>row_rowheight = Some [Some h]\<rparr>)])))) = Inr res"
    by (simp add: updateRowHeight_def Let_def)
  then obtain tr where tr: "?loop = Inr tr"
    by (cases ?loop) auto
  from unf tr obtain rp where
    "before (table doc) ?p = Some rp"
    "res = dispatchIfChanged
             (tr @ [SetNodeMarkup (start doc + rp) (RowNode \<lparr>row_rowheight = Some [Some h]\<rparr>)])"
    by (cases "before (table doc) ?p") auto
  then show thesis using that[OF st r a sp] tr unfolding e by blast
qed

lemma before_row: "before t p = Some rp \<Longrightarrow> \<exists>ra. t rp = Some (RowNode ra)"
  by (induction p) (auto split: option.splits node.splits)

lemma rowWrite_touched:
  assumes "table doc pos = Some (CellNode a)" "k < rowspan a" "wf_hints (rowspan a) (rowheight a)"
  shows "rowWrite doc h
           (SetNodeMarkup (start doc + pos)
              (CellNode (a\<lparr>rowheight := Some (touched (rowspan a) (rowheight a) k h)\<rparr>)))"
  unfolding rowWrite_def using assms length_touched[OF assms(3)]
  by (auto intro!: bexI[of _ k])

lemma rowBody_writes:
  assumes wf: "wf_doc doc" and row: "row < height (tablemap doc)"
    and col: "col < width (tablemap doc)"
    and body: "rowBody doc (int row) h col = Inr steps"
  shows "list_all (rowWrite doc h) steps"
proof -
  let ?m = "tablemap doc"
  have len: "length (map_t ?m) = width ?m * height ?m" using wf by (simp add: wf_doc_def)
  from rowBody_wf[OF wf row col] obtain a r where
    f: "table doc (map_t ?m ! (row * width ?m + col)) = Some (CellNode a)"
       "rowCount ?m (map_t ?m ! (row * width ?m + col)) = Some r"
       "r \<le> row" "row < r + rowspan a" "wf_hints (rowspan a) (rowheight a)"
    by blast
  have k: "row - r < rowspan a" using f(3,4) by simp
  from body show ?thesis
    unfolding rowBody_grid[OF len row col f]
    using rowWrite_touched[OF f(1) k f(5)]
    by (auto split: if_splits)
qed


lemma applySteps_frame:
  "start (foldl applyStep doc steps) = start doc \<and>
   tablemap (foldl applyStep doc steps) = tablemap doc"
proof (induction steps arbitrary: doc)
  case Nil
  show ?case by simp
next
  case (Cons s steps)
  obtain p n where s: "s = SetNodeMarkup p n" by (cases s)
  show ?case using Cons.IH[of "applyStep doc s"] by (simp add: s)
qed

lemma applySteps_table:
  assumes "\<forall>s\<in>set steps. \<exists>q. s = SetNodeMarkup (start doc + q) (f q)"
  shows "table (foldl applyStep doc steps) q =
           (if SetNodeMarkup (start doc + q) (f q) \<in> set steps then Some (f q) else table doc q)"
  using assms
proof (induction steps rule: rev_induct)
  case Nil
  show ?case by simp
next
  case (snoc s steps)
  from snoc.prems obtain q' where s: "s = SetNodeMarkup (start doc + q') (f q')" by auto
  have ih: "table (foldl applyStep doc steps) q =
           (if SetNodeMarkup (start doc + q) (f q) \<in> set steps then Some (f q) else table doc q)"
    using snoc by simp
  have st: "start (foldl applyStep doc steps) = start doc" using applySteps_frame by blast
  show ?case
  proof (cases "q = q'")
    case True
    then show ?thesis by (simp add: s st)
  next
    case False
    then show ?thesis using ih by (simp add: s st)
  qed
qed

lemma dispatch_changed: "dispatch doc (dispatchIfChanged tr) = foldl applyStep doc tr"
  by (simp add: dispatch_def dispatchIfChanged_def)


lemma columnBody_cases:
  assumes wf: "wf_doc doc" and row: "row < height (tablemap doc)"
    and col: "col < width (tablemap doc)"
  obtains a c where
    "table doc (map_t (tablemap doc) ! (row * width (tablemap doc) + col)) = Some (CellNode a)"
    "colCount (tablemap doc) (map_t (tablemap doc) ! (row * width (tablemap doc) + col)) = Some c"
    "c \<le> col" "col < c + colspan a" "wf_hints (colspan a) (colwidth a)"
    "columnBody doc (int col) w row =
       (if (row \<noteq> 0 \<and> map_t (tablemap doc) ! (row * width (tablemap doc) + col)
                         = map_t (tablemap doc) ! ((row - 1) * width (tablemap doc) + col))
           \<or> (colwidth a \<noteq> None \<and> get_at (the (colwidth a)) (int (col - c)) = Some w)
        then Inr []
        else Inr [SetNodeMarkup
                    (start doc + map_t (tablemap doc) ! (row * width (tablemap doc) + col))
                    (columnNode doc col w
                       (map_t (tablemap doc) ! (row * width (tablemap doc) + col)))])"
proof -
  let ?m = "tablemap doc"
  have len: "length (map_t ?m) = width ?m * height ?m" using wf by (simp add: wf_doc_def)
  from columnBody_wf[OF wf row col] obtain a c where
    f: "table doc (map_t ?m ! (row * width ?m + col)) = Some (CellNode a)"
       "colCount ?m (map_t ?m ! (row * width ?m + col)) = Some c"
       "c \<le> col" "col < c + colspan a" "wf_hints (colspan a) (colwidth a)"
    by blast
  have n: "columnNode doc col w (map_t ?m ! (row * width ?m + col))
           = CellNode (a\<lparr>colwidth := Some (touched (colspan a) (colwidth a) (col - c) w)\<rparr>)"
    by (simp add: columnNode_def f(1,2))
  have "columnBody doc (int col) w row =
       (if (row \<noteq> 0 \<and> map_t ?m ! (row * width ?m + col) = map_t ?m ! ((row - 1) * width ?m + col))
           \<or> (colwidth a \<noteq> None \<and> get_at (the (colwidth a)) (int (col - c)) = Some w)
        then Inr []
        else Inr [SetNodeMarkup (start doc + map_t ?m ! (row * width ?m + col))
                    (columnNode doc col w (map_t ?m ! (row * width ?m + col)))])"
    unfolding columnBody_grid[OF len row col f] n by simp
  with f show thesis using that by blast
qed


lemma wf_hints_Some: "wf_hints n (Some xs) = (length xs = n)"
  by (simp add: wf_hints_def)

lemma wf_doc_same_cells:
  assumes wf: "wf_doc doc" and m: "tablemap doc' = tablemap doc"
    and cells: "\<And>q a. table doc q = Some (CellNode a) \<Longrightarrow>
        \<exists>a'. table doc' q = Some (CellNode a') \<and> colspan a' = colspan a \<and>
             rowspan a' = rowspan a \<and>
             (wf_hints (colspan a) (colwidth a) \<longrightarrow> wf_hints (colspan a') (colwidth a')) \<and>
             (wf_hints (rowspan a) (rowheight a) \<longrightarrow> wf_hints (rowspan a') (rowheight a'))"
  shows "wf_doc doc'"
proof -
  have "wf_slot doc' i" if i: "i < length (map_t (tablemap doc))" for i
  proof -
    from wf_docD[OF wf i] have ws: "wf_slot doc i" .
    from ws obtain a where a: "table doc (map_t (tablemap doc) ! i) = Some (CellNode a)"
      by (rule wf_slot_cell)
    from cells[OF a] obtain a' where
      a': "table doc' (map_t (tablemap doc) ! i) = Some (CellNode a')"
          "colspan a' = colspan a" "rowspan a' = rowspan a"
          "wf_hints (colspan a) (colwidth a) \<longrightarrow> wf_hints (colspan a') (colwidth a')"
          "wf_hints (rowspan a) (rowheight a) \<longrightarrow> wf_hints (rowspan a') (rowheight a')"
      by blast
    from ws a a' show ?thesis
      unfolding wf_slot_def Let_def m
      by (simp split: option.splits)
  qed
  then show ?thesis using wf by (simp add: wf_doc_def m list_all_iff)
qed

lemma column_second_run:
  fixes doc :: "'a Doc"
  assumes wf: "wf_doc doc" and col: "col < width (tablemap doc)"
    and loop: "forEach (columnBody doc (int col) w) [0..<height (tablemap doc)] = Inr tr"
  defines "doc' \<equiv> foldl applyStep doc tr"
  shows "forEach (columnBody doc' (int col) w) [0..<height (tablemap doc)] = Inr []"
    and "table doc q = Some (CellNode a) \<Longrightarrow>
           \<exists>a'. table doc' q = Some (CellNode a') \<and> colspan a' = colspan a"
proof -
  let ?m = "tablemap doc"
  let ?f = "columnNode doc col w"
  have m': "tablemap doc' = ?m" and st': "start doc' = start doc"
    using applySteps_frame[of doc tr] by (simp_all add: doc'_def)
  have form: "\<forall>s\<in>set tr. \<exists>q. s = SetNodeMarkup (start doc + q) (?f q)"
  proof
    fix s assume "s \<in> set tr"
    from forEach_Inr_mem[OF loop this] obtain row steps where
      row: "row < height ?m" and b: "columnBody doc (int col) w row = Inr steps"
      and s: "s \<in> set steps"
      by auto
    obtain a c where
      "table doc (map_t ?m ! (row * width ?m + col)) = Some (CellNode a)"
      "colCount ?m (map_t ?m ! (row * width ?m + col)) = Some c"
      "c \<le> col" "col < c + colspan a" "wf_hints (colspan a) (colwidth a)"
      and e: "columnBody doc (int col) w row =
       (if (row \<noteq> 0 \<and> map_t ?m ! (row * width ?m + col)
                         = map_t ?m ! ((row - 1) * width ?m + col))
           \<or> (colwidth a \<noteq> None \<and> get_at (the (colwidth a)) (int (col - c)) = Some w)
        then Inr []
        else Inr [SetNodeMarkup (start doc + map_t ?m ! (row * width ?m + col))
                    (?f (map_t ?m ! (row * width ?m + col)))])"
      by (rule columnBody_cases[OF wf row col, of w])
    from b s show "\<exists>q. s = SetNodeMarkup (start doc + q) (?f q)"
      unfolding e by (auto split: if_splits)
  qed
  have tab: "table doc' q =
           (if SetNodeMarkup (start doc + q) (?f q) \<in> set tr then Some (?f q) else table doc q)"
    for q
    unfolding doc'_def by (rule applySteps_table[OF form])
  have cells: "\<exists>a'. table doc' q = Some (CellNode a') \<and> colspan a' = colspan a \<and>
             rowspan a' = rowspan a \<and>
             (wf_hints (colspan a) (colwidth a) \<longrightarrow> wf_hints (colspan a') (colwidth a')) \<and>
             (wf_hints (rowspan a) (rowheight a) \<longrightarrow> wf_hints (rowspan a') (rowheight a'))"
    if "table doc q = Some (CellNode a)" for q a
    using that by (simp add: tab columnNode_def length_touched wf_hints_Some)
  then show "table doc q = Some (CellNode a) \<Longrightarrow>
           \<exists>a'. table doc' q = Some (CellNode a') \<and> colspan a' = colspan a"
    by blast
  have wf': "wf_doc doc'" using wf m' cells by (rule wf_doc_same_cells)
  have "columnBody doc' (int col) w row = Inr []" if row: "row < height ?m" for row
  proof -
    let ?pos = "map_t ?m ! (row * width ?m + col)"
    have row': "row < height (tablemap doc')" and col': "col < width (tablemap doc')"
      using row col m' by simp_all
    obtain a c where
      a: "table doc ?pos = Some (CellNode a)" and c: "colCount ?m ?pos = Some c"
      and k: "c \<le> col" "col < c + colspan a" and h: "wf_hints (colspan a) (colwidth a)"
      and b: "columnBody doc (int col) w row =
       (if (row \<noteq> 0 \<and> ?pos = map_t ?m ! ((row - 1) * width ?m + col))
           \<or> (colwidth a \<noteq> None \<and> get_at (the (colwidth a)) (int (col - c)) = Some w)
        then Inr []
        else Inr [SetNodeMarkup (start doc + ?pos) (?f ?pos)])"
      by (rule columnBody_cases[OF wf row col, of w])
    obtain a' c' where
      a': "table doc' ?pos = Some (CellNode a')" and c': "colCount ?m ?pos = Some c'"
      and "c' \<le> col" "col < c' + colspan a'" "wf_hints (colspan a') (colwidth a')"
      and b': "columnBody doc' (int col) w row =
       (if (row \<noteq> 0 \<and> ?pos = map_t ?m ! ((row - 1) * width ?m + col))
           \<or> (colwidth a' \<noteq> None \<and> get_at (the (colwidth a')) (int (col - c')) = Some w)
        then Inr []
        else Inr [SetNodeMarkup (start doc' + ?pos) (columnNode doc' col w ?pos)])"
      by (rule columnBody_cases[OF wf' row' col', of w, unfolded m'])
    have cc: "c' = c" using c c' by simp
    have "(row \<noteq> 0 \<and> ?pos = map_t ?m ! ((row - 1) * width ?m + col))
           \<or> (colwidth a' \<noteq> None \<and> get_at (the (colwidth a')) (int (col - c)) = Some w)"
    proof (cases "SetNodeMarkup (start doc + ?pos) (?f ?pos) \<in> set tr")
      case True
      then have "a' = a\<lparr>colwidth := Some (touched (colspan a) (colwidth a) (col - c) w)\<rparr>"
        using a' a c by (simp add: tab columnNode_def)
      moreover have "col - c < colspan a" using k by simp
      ultimately show ?thesis using get_at_touched[OF h] by simp
    next
      case False
      then have same: "a' = a" using a' a by (simp add: tab)
      have rowmem: "row \<in> set [0..<height ?m]" using row by simp
      from forEach_Inr_each[OF loop rowmem] obtain steps where
        "columnBody doc (int col) w row = Inr steps" "set steps \<subseteq> set tr"
        by blast
      with b False show ?thesis unfolding same by (auto split: if_splits)
    qed
    then show ?thesis unfolding b' cc by simp
  qed
  then show "forEach (columnBody doc' (int col) w) [0..<height ?m] = Inr []"
    by (intro forEach_all_skip) simp
qed


lemma rowBody_cases:
  assumes wf: "wf_doc doc" and row: "row < height (tablemap doc)"
    and col: "col < width (tablemap doc)"
  obtains a r where
    "table doc (map_t (tablemap doc) ! (row * width (tablemap doc) + col)) = Some (CellNode a)"
    "rowCount (tablemap doc) (map_t (tablemap doc) ! (row * width (tablemap doc) + col)) = Some r"
    "r \<le> row" "row < r + rowspan a" "wf_hints (rowspan a) (rowheight a)"
    "rowBody doc (int row) h col =
       (if (row \<noteq> 0 \<and> map_t (tablemap doc) ! (row * width (tablemap doc) + col)
                         = map_t (tablemap doc) ! (row * width (tablemap doc) + col - 1))
           \<or> (rowheight a \<noteq> None \<and> get_at (the (rowheight a)) (int (row - r)) = Some h)
        then Inr []
        else Inr [SetNodeMarkup
                    (start doc + map_t (tablemap doc) ! (row * width (tablemap doc) + col))
                    (rowNode doc row h
                       (map_t (tablemap doc) ! (row * width (tablemap doc) + col)))])"
proof -
  let ?m = "tablemap doc"
  have len: "length (map_t ?m) = width ?m * height ?m" using wf by (simp add: wf_doc_def)
  from rowBody_wf[OF wf row col] obtain a r where
    f: "table doc (map_t ?m ! (row * width ?m + col)) = Some (CellNode a)"
       "rowCount ?m (map_t ?m ! (row * width ?m + col)) = Some r"
       "r \<le> row" "row < r + rowspan a" "wf_hints (rowspan a) (rowheight a)"
    by blast
  have n: "rowNode doc row h (map_t ?m ! (row * width ?m + col))
           = CellNode (a\<lparr>rowheight := Some (touched (rowspan a) (rowheight a) (row - r) h)\<rparr>)"
    by (simp add: rowNode_def f(1,2))
  have "rowBody doc (int row) h col =
       (if (row \<noteq> 0 \<and> map_t ?m ! (row * width ?m + col) = map_t ?m ! (row * width ?m + col - 1))
           \<or> (rowheight a \<noteq> None \<and> get_at (the (rowheight a)) (int (row - r)) = Some h)
        then Inr []
        else Inr [SetNodeMarkup (start doc + map_t ?m ! (row * width ?m + col))
                    (rowNode doc row h (map_t ?m ! (row * width ?m + col)))])"
    unfolding rowBody_grid[OF len row col f] n by simp
  with f show thesis using that by blast
qed

lemma before_same_rows:
  assumes "\<And>q. (\<exists>ra. t' q = Some (RowNode ra)) = (\<exists>ra. t q = Some (RowNode ra))"
  shows "before t' p = before t p"
proof (induction p)
  case 0
  show ?case by simp
next
  case (Suc p)
  show ?case
  proof (cases "\<exists>ra. t p = Some (RowNode ra)")
    case True
    moreover from True assms[of p] have "\<exists>ra. t' p = Some (RowNode ra)" by simp
    ultimately show ?thesis by auto
  next
    case False
    moreover from False assms[of p] have "\<not> (\<exists>ra. t' p = Some (RowNode ra))" by simp
    ultimately show ?thesis using Suc.IH
      by (auto split: option.splits node.splits)
  qed
qed

lemma row_second_run:
  fixes doc :: "'a Doc"
  assumes wf: "wf_doc doc" and row: "row < height (tablemap doc)"
    and loop: "forEach (rowBody doc (int row) h) [0..<width (tablemap doc)] = Inr tr"
    and rp: "table doc rp = Some (RowNode ra)"
  defines "doc' \<equiv> foldl applyStep doc
     (tr @ [SetNodeMarkup (start doc + rp) (RowNode \<lparr>row_rowheight = Some [Some h]\<rparr>)])"
  shows "forEach (rowBody doc' (int row) h) [0..<width (tablemap doc)] = Inr []"
    and "table doc q = Some (CellNode a) \<Longrightarrow>
           \<exists>a'. table doc' q = Some (CellNode a') \<and> rowspan a' = rowspan a"
    and "(\<exists>ra. table doc' q = Some (RowNode ra)) = (\<exists>ra. table doc q = Some (RowNode ra))"
    and "table doc' rp = Some (RowNode \<lparr>row_rowheight = Some [Some h]\<rparr>)"
proof -
  let ?m = "tablemap doc"
  let ?f = "rowNode doc row h"
  let ?rs = "SetNodeMarkup (start doc + rp) (RowNode \<lparr>row_rowheight = Some [Some h]\<rparr>)"
  let ?all = "tr @ [?rs]"
  have m': "tablemap doc' = ?m" and st': "start doc' = start doc"
    using applySteps_frame[of doc ?all] by (simp_all add: doc'_def)
  have frp: "?f rp = RowNode \<lparr>row_rowheight = Some [Some h]\<rparr>"
    using rp by (simp add: rowNode_def)
  have formtr: "\<forall>s\<in>set tr. \<exists>q a. s = SetNodeMarkup (start doc + q) (?f q) \<and>
                  table doc q = Some (CellNode a)"
  proof
    fix s assume "s \<in> set tr"
    from forEach_Inr_mem[OF loop this] obtain col steps where
      col: "col < width ?m" and b: "rowBody doc (int row) h col = Inr steps"
      and s: "s \<in> set steps"
      by auto
    obtain a r where
      "table doc (map_t ?m ! (row * width ?m + col)) = Some (CellNode a)"
      "rowCount ?m (map_t ?m ! (row * width ?m + col)) = Some r"
      "r \<le> row" "row < r + rowspan a" "wf_hints (rowspan a) (rowheight a)"
      and e: "rowBody doc (int row) h col =
       (if (row \<noteq> 0 \<and> map_t ?m ! (row * width ?m + col)
                         = map_t ?m ! (row * width ?m + col - 1))
           \<or> (rowheight a \<noteq> None \<and> get_at (the (rowheight a)) (int (row - r)) = Some h)
        then Inr []
        else Inr [SetNodeMarkup (start doc + map_t ?m ! (row * width ?m + col))
                    (?f (map_t ?m ! (row * width ?m + col)))])"
      by (rule rowBody_cases[OF wf row col, of h])
    from b s this(1) show "\<exists>q a. s = SetNodeMarkup (start doc + q) (?f q) \<and>
                  table doc q = Some (CellNode a)"
      unfolding e by (auto split: if_splits)
  qed
  have form: "\<forall>s\<in>set ?all. \<exists>q. s = SetNodeMarkup (start doc + q) (?f q)"
    using formtr frp by auto
  have tab: "table doc' q =
           (if SetNodeMarkup (start doc + q) (?f q) \<in> set ?all then Some (?f q) else table doc q)"
    for q
    unfolding doc'_def by (rule applySteps_table[OF form])
  show "table doc' rp = Some (RowNode \<lparr>row_rowheight = Some [Some h]\<rparr>)"
    by (simp add: tab frp)
  have cells: "\<exists>a'. table doc' q = Some (CellNode a') \<and> colspan a' = colspan a \<and>
             rowspan a' = rowspan a \<and>
             (wf_hints (colspan a) (colwidth a) \<longrightarrow> wf_hints (colspan a') (colwidth a')) \<and>
             (wf_hints (rowspan a) (rowheight a) \<longrightarrow> wf_hints (rowspan a') (rowheight a'))"
    if "table doc q = Some (CellNode a)" for q a
    using that by (simp add: tab rowNode_def length_touched wf_hints_Some)
  then show "table doc q = Some (CellNode a) \<Longrightarrow>
           \<exists>a'. table doc' q = Some (CellNode a') \<and> rowspan a' = rowspan a"
    by blast
  show "(\<exists>ra. table doc' q = Some (RowNode ra)) = (\<exists>ra. table doc q = Some (RowNode ra))"
  proof (cases "table doc q")
    case None
    have nm: "SetNodeMarkup (start doc + q) (?f q) \<notin> set ?all"
    proof
      assume "SetNodeMarkup (start doc + q) (?f q) \<in> set ?all"
      then consider "SetNodeMarkup (start doc + q) (?f q) \<in> set tr" | "q = rp" by auto
      then show False
      proof cases
        case 1
        from formtr[rule_format, OF 1] None show False by auto
      next
        case 2
        then show False using None rp by simp
      qed
    qed
    have "table doc' q = table doc q" unfolding tab using nm by (simp only: if_False)
    then show ?thesis by simp
  next
    case (Some n)
    then show ?thesis by (cases n) (auto simp: tab rowNode_def)
  qed
  have wf': "wf_doc doc'" using wf m' cells by (rule wf_doc_same_cells)
  have "rowBody doc' (int row) h col = Inr []" if col: "col < width ?m" for col
  proof -
    let ?pos = "map_t ?m ! (row * width ?m + col)"
    have row': "row < height (tablemap doc')" and col': "col < width (tablemap doc')"
      using row col m' by simp_all
    obtain a r where
      a: "table doc ?pos = Some (CellNode a)" and r: "rowCount ?m ?pos = Some r"
      and k: "r \<le> row" "row < r + rowspan a" and hh: "wf_hints (rowspan a) (rowheight a)"
      and b: "rowBody doc (int row) h col =
       (if (row \<noteq> 0 \<and> ?pos = map_t ?m ! (row * width ?m + col - 1))
           \<or> (rowheight a \<noteq> None \<and> get_at (the (rowheight a)) (int (row - r)) = Some h)
        then Inr []
        else Inr [SetNodeMarkup (start doc + ?pos) (?f ?pos)])"
      by (rule rowBody_cases[OF wf row col, of h])
    obtain a' r' where
      a': "table doc' ?pos = Some (CellNode a')" and r': "rowCount ?m ?pos = Some r'"
      and "r' \<le> row" "row < r' + rowspan a'" "wf_hints (rowspan a') (rowheight a')"
      and b': "rowBody doc' (int row) h col =
       (if (row \<noteq> 0 \<and> ?pos = map_t ?m ! (row * width ?m + col - 1))
           \<or> (rowheight a' \<noteq> None \<and> get_at (the (rowheight a')) (int (row - r')) = Some h)
        then Inr []
        else Inr [SetNodeMarkup (start doc' + ?pos) (rowNode doc' row h ?pos)])"
      by (rule rowBody_cases[OF wf' row' col', of h, unfolded m'])
    have rr: "r' = r" using r r' by simp
    have "(row \<noteq> 0 \<and> ?pos = map_t ?m ! (row * width ?m + col - 1))
           \<or> (rowheight a' \<noteq> None \<and> get_at (the (rowheight a')) (int (row - r)) = Some h)"
    proof (cases "SetNodeMarkup (start doc + ?pos) (?f ?pos) \<in> set ?all")
      case True
      have "table doc' ?pos = Some (?f ?pos)" unfolding tab using True by (simp only: if_True)
      then have "a' = a\<lparr>rowheight := Some (touched (rowspan a) (rowheight a) (row - r) h)\<rparr>"
        using a' a r by (simp add: rowNode_def)
      moreover have "row - r < rowspan a" using k by simp
      ultimately show ?thesis using get_at_touched[OF hh] by simp
    next
      case False
      have "table doc' ?pos = table doc ?pos" unfolding tab using False by (simp only: if_False)
      then have same: "a' = a" using a' a by simp
      have colmem: "col \<in> set [0..<width ?m]" using col by simp
      from forEach_Inr_each[OF loop colmem] obtain steps where
        "rowBody doc (int row) h col = Inr steps" "set steps \<subseteq> set tr"
        by blast
      with b False show ?thesis unfolding same by (auto split: if_splits)
    qed
    then show ?thesis unfolding b' rr by simp
  qed
  then show "forEach (rowBody doc' (int row) h) [0..<width ?m] = Inr []"
    by (intro forEach_all_skip) simp
qed


lemma updateColumnWidth_eq:
  assumes "start doc \<le> cell"
    and "colCount (tablemap doc) (cell - start doc) = Some c"
    and "table doc (cell - start doc) = Some (CellNode a)"
    and "forEach (columnBody doc (int c + int (colspan a) - 1) w) [0..<height (tablemap doc)]
           = Inr tr"
  shows "updateColumnWidth doc cell w = Inr (dispatchIfChanged tr)"
  using assms by (simp add: updateColumnWidth_def Let_def)

lemma updateRowHeight_eq:
  assumes "start doc \<le> cell"
    and "rowCount (tablemap doc) (cell - start doc) = Some r"
    and "table doc (cell - start doc) = Some (CellNode a)"
    and "forEach (rowBody doc (int r + int (rowspan a) - 1) h) [0..<width (tablemap doc)]
           = Inr tr"
    and "before (table doc) (cell - start doc) = Some rp"
  shows "updateRowHeight doc cell h =
           Inr (dispatchIfChanged
                  (tr @ [SetNodeMarkup (start doc + rp)
                           (RowNode \<lparr>row_rowheight = Some [Some h]\<rparr>)]))"
  using assms by (simp add: updateRowHeight_def Let_def)


lemma subtractHinted_eq:
  "subtractHinted hs idxs (d, p) =
     (d - sum_list (map (\<lambda>i. the (get_at hs (int i))) (filter (\<lambda>i. truthy (get_at hs (int i))) idxs)),
      p - int (length (filter (\<lambda>i. truthy (get_at hs (int i))) idxs)))"
  by (induction idxs arbitrary: d p) simp_all

lemma hinted_lt:
  assumes "1 \<le> n" "\<not> truthy (hintOf hs (n - 1))"
  shows "length (hinted n hs) < n"
proof -
  have "n - 1 \<in> set [0..<n]" using assms(1) by simp
  from length_filter_less[OF this, of "\<lambda>i. truthy (hintOf hs i)"] assms(2)
  show ?thesis by (simp add: hinted_def)
qed

lemma effective_loop:
  assumes "1 \<le> n" and "\<not> truthy (hintOf (Some xs) (n - 1))"
  shows "(let (d, p) = subtractHinted xs [0..<n] (measured, int n)
          in if p = 0 then None else Some (d / real_of_int p))
         = Some (effectiveSize n (Some xs) measured)"
proof -
  let ?h = "hinted n (Some xs)"
  have lt: "length ?h < n" using hinted_lt[OF assms] .
  have f: "filter (\<lambda>i. truthy (get_at xs (int i))) [0..<n] = ?h"
    by (simp add: hinted_def hintOf_def)
  have p: "int n - int (length ?h) = int (n - length ?h)" using lt by simp
  have "subtractHinted xs [0..<n] (measured, int n)
        = (measured - sum_list (map (\<lambda>i. the (hintOf (Some xs) i)) ?h), int (n - length ?h))"
    unfolding subtractHinted_eq f p by (simp add: hintOf_def)
  then show ?thesis using lt assms(2) by (simp add: effectiveSize_def)
qed


lemma addExtra_other:
  "prop \<notin> fst ` set extraAttrs \<Longrightarrow> addExtra d extraAttrs result prop = result prop"
  by (induction extraAttrs arbitrary: result) (auto split: option.splits)


lemma split_comma_nonempty: "split_comma s \<noteq> []"
  by (induction s) (auto split: list.splits)

lemma digitGroups_split:
  "digitGroups seen s \<Longrightarrow>
     (seen \<or> hd (split_comma s) \<noteq> []) \<and> list_all isDigit (hd (split_comma s)) \<and>
     list_all (\<lambda>p. p \<noteq> [] \<and> list_all isDigit p) (tl (split_comma s))"
proof (induction s arbitrary: seen)
  case Nil
  then show ?case by simp
next
  case (Cons c cs)
  show ?case
  proof (cases "isDigit c")
    case True
    then have "c \<noteq> CHR '',''" by (auto simp: isDigit_def)
    moreover from Cons.prems True have "digitGroups True cs" by simp
    ultimately show ?thesis using Cons.IH[of True] True split_comma_nonempty[of cs]
      by (auto split: list.splits)
  next
    case False
    with Cons.prems have c: "c = CHR '',''" and sn: seen and r: "digitGroups False cs"
      by (auto split: if_splits)
    from Cons.IH[OF r] show ?thesis using c sn split_comma_nonempty[of cs]
      by (cases "split_comma cs") auto
  qed
qed

lemma test_sizes_parts:
  "test_sizes s \<Longrightarrow> list_all (\<lambda>p. p \<noteq> [] \<and> list_all isDigit p) (split_comma s)"
  using digitGroups_split[of False s] split_comma_nonempty[of s]
  by (cases "split_comma s") (auto simp: test_sizes_def)


lemma columnBody_changes:
  assumes wf: "wf_doc doc" and row: "row < height (tablemap doc)"
    and col: "col < width (tablemap doc)"
    and body: "columnBody doc (int col) w row = Inr steps"
  shows "list_all (changesCell doc) steps"
proof -
  let ?m = "tablemap doc"
  have len: "length (map_t ?m) = width ?m * height ?m" using wf by (simp add: wf_doc_def)
  from columnBody_wf[OF wf row col] obtain a c where
    f: "table doc (map_t ?m ! (row * width ?m + col)) = Some (CellNode a)"
       "colCount ?m (map_t ?m ! (row * width ?m + col)) = Some c"
       "c \<le> col" "col < c + colspan a" "wf_hints (colspan a) (colwidth a)"
    by blast
  have k: "col - c < colspan a" using f(3,4) by simp
  have ne: "a\<lparr>colwidth := Some (touched (colspan a) (colwidth a) (col - c) w)\<rparr> \<noteq> a"
    if "\<not> (colwidth a \<noteq> None \<and> get_at (the (colwidth a)) (int (col - c)) = Some w)"
  proof
    assume "a\<lparr>colwidth := Some (touched (colspan a) (colwidth a) (col - c) w)\<rparr> = a"
    then have e: "colwidth a = Some (touched (colspan a) (colwidth a) (col - c) w)"
      by (metis CellAttrs.select_convs(3) CellAttrs.surjective CellAttrs.update_convs(3))
    then have "colwidth a \<noteq> None" by (cases "colwidth a") simp_all
    moreover have "get_at (the (colwidth a)) (int (col - c)) = Some w"
      by (subst e) (simp add: get_at_touched[OF f(5) k])
    ultimately show False using that by blast
  qed
  from body show ?thesis
    unfolding columnBody_grid[OF len row col f]
    using f(1) ne by (auto simp: changesCell_def split: if_splits)
qed

lemma rowBody_changes:
  assumes wf: "wf_doc doc" and row: "row < height (tablemap doc)"
    and col: "col < width (tablemap doc)"
    and body: "rowBody doc (int row) h col = Inr steps"
  shows "list_all (changesCell doc) steps"
proof -
  let ?m = "tablemap doc"
  have len: "length (map_t ?m) = width ?m * height ?m" using wf by (simp add: wf_doc_def)
  from rowBody_wf[OF wf row col] obtain a r where
    f: "table doc (map_t ?m ! (row * width ?m + col)) = Some (CellNode a)"
       "rowCount ?m (map_t ?m ! (row * width ?m + col)) = Some r"
       "r \<le> row" "row < r + rowspan a" "wf_hints (rowspan a) (rowheight a)"
    by blast
  have k: "row - r < rowspan a" using f(3,4) by simp
  have ne: "a\<lparr>rowheight := Some (touched (rowspan a) (rowheight a) (row - r) h)\<rparr> \<noteq> a"
    if "\<not> (rowheight a \<noteq> None \<and> get_at (the (rowheight a)) (int (row - r)) = Some h)"
  proof
    assume "a\<lparr>rowheight := Some (touched (rowspan a) (rowheight a) (row - r) h)\<rparr> = a"
    then have e: "rowheight a = Some (touched (rowspan a) (rowheight a) (row - r) h)"
      by (metis CellAttrs.select_convs(4) CellAttrs.surjective CellAttrs.update_convs(4))
    then have "rowheight a \<noteq> None" by (cases "rowheight a") simp_all
    moreover have "get_at (the (rowheight a)) (int (row - r)) = Some h"
      by (subst e) (simp add: get_at_touched[OF f(5) k])
    ultimately show False using that by blast
  qed
  from body show ?thesis
    unfolding rowBody_grid[OF len row col f]
    using f(1) ne by (auto simp: changesCell_def split: if_splits)
qed


lemma commit_changes_cells:
  fixes doc :: "'a Doc"
  assumes wf: "wf_doc doc"
  shows "updateColumnWidth doc cell w = Inr (Some tr) \<Longrightarrow> list_all (changesCell doc) tr"
    and "updateRowHeight doc cell' h = Inr (Some tr') \<Longrightarrow> list_all (changesCell doc) tr'"
proof -
  assume res: "updateColumnWidth doc cell w = Inr (Some tr)"
  obtain c a tr0 where
    "start doc \<le> cell"
    "colCount (tablemap doc) (cell - start doc) = Some c"
    "table doc (cell - start doc) = Some (CellNode a)"
    and sp: "1 \<le> colspan a" "c + colspan a \<le> width (tablemap doc)"
    and loop: "forEach (columnBody doc (int (c + colspan a - 1)) w) [0..<height (tablemap doc)]
                 = Inr tr0"
    and r: "Some tr = dispatchIfChanged tr0"
    by (rule updateColumnWidth_loop[OF wf res])
  have tr: "tr = tr0" using dispatchIfChanged_set[OF r[symmetric]] .
  have col: "c + colspan a - 1 < width (tablemap doc)" using sp by simp
  show "list_all (changesCell doc) tr"
    unfolding list_all_iff
  proof
    fix s assume "s \<in> set tr"
    from forEach_Inr_mem[OF loop this[unfolded tr]] obtain row steps where
      rw: "row < height (tablemap doc)"
      and b: "columnBody doc (int (c + colspan a - 1)) w row = Inr steps" and s: "s \<in> set steps"
      by auto
    from columnBody_changes[OF wf rw col b] s show "changesCell doc s"
      by (simp add: list_all_iff)
  qed
next
  assume res: "updateRowHeight doc cell' h = Inr (Some tr')"
  obtain r a tr0 rp where
    "start doc \<le> cell'"
    "rowCount (tablemap doc) (cell' - start doc) = Some r"
    "table doc (cell' - start doc) = Some (CellNode a)"
    and sp: "1 \<le> rowspan a" "r + rowspan a \<le> height (tablemap doc)"
    and loop: "forEach (rowBody doc (int (r + rowspan a - 1)) h) [0..<width (tablemap doc)]
                 = Inr tr0"
    and bf: "before (table doc) (cell' - start doc) = Some rp"
    and r: "Some tr' = dispatchIfChanged
             (tr0 @ [SetNodeMarkup (start doc + rp) (RowNode \<lparr>row_rowheight = Some [Some h]\<rparr>)])"
    by (rule updateRowHeight_loop[OF wf res])
  have tr: "tr' = tr0 @ [SetNodeMarkup (start doc + rp) (RowNode \<lparr>row_rowheight = Some [Some h]\<rparr>)]"
    using dispatchIfChanged_set[OF r[symmetric]] .
  have row: "r + rowspan a - 1 < height (tablemap doc)" using sp by simp
  show "list_all (changesCell doc) tr'"
    unfolding list_all_iff
  proof
    fix s assume "s \<in> set tr'"
    then consider "s \<in> set tr0"
      | "s = SetNodeMarkup (start doc + rp) (RowNode \<lparr>row_rowheight = Some [Some h]\<rparr>)"
      unfolding tr by auto
    then show "changesCell doc s"
    proof cases
      case 1
      from forEach_Inr_mem[OF loop 1] obtain col steps where
        cl: "col < width (tablemap doc)"
        and b: "rowBody doc (int (r + rowspan a - 1)) h col = Inr steps" and s: "s \<in> set steps"
        by auto
      from rowBody_changes[OF wf row cl b] s show ?thesis by (simp add: list_all_iff)
    next
      case 2
      then show ?thesis by (simp add: changesCell_def)
    qed
  qed
qed

lemma second_commit_aux:
  fixes doc :: "'a Doc"
  assumes wf: "wf_doc doc"
  shows "(updateColumnWidth doc cell w = Inr res \<longrightarrow>
            updateColumnWidth (dispatch doc res) cell w = Inr None)
       \<and> (updateRowHeight doc cell' h = Inr res' \<longrightarrow>
            (\<exists>rowPos.
               updateRowHeight (dispatch doc res') cell' h =
                 Inr (Some [SetNodeMarkup rowPos (RowNode \<lparr>row_rowheight = Some [Some h]\<rparr>)]) \<and>
               dispatch (dispatch doc res')
                 (Some [SetNodeMarkup rowPos (RowNode \<lparr>row_rowheight = Some [Some h]\<rparr>)])
               = dispatch doc res'))"
proof (intro conjI impI)
  let ?m = "tablemap doc"
  assume res: "updateColumnWidth doc cell w = Inr res"
  obtain c a tr where
    st: "start doc \<le> cell"
    and c: "colCount ?m (cell - start doc) = Some c"
    and a: "table doc (cell - start doc) = Some (CellNode a)"
    and sp: "1 \<le> colspan a" "c + colspan a \<le> width ?m"
    and loop: "forEach (columnBody doc (int (c + colspan a - 1)) w) [0..<height ?m] = Inr tr"
    and r: "res = dispatchIfChanged tr"
    by (rule updateColumnWidth_loop[OF wf res])
  let ?doc' = "foldl applyStep doc tr"
  have d: "dispatch doc res = ?doc'" unfolding r by (rule dispatch_changed)
  have col: "c + colspan a - 1 < width ?m" using sp by simp
  have fr: "start ?doc' = start doc" "tablemap ?doc' = ?m"
    using applySteps_frame[of doc tr] by simp_all
  from column_second_run(2)[OF wf col loop a] obtain a' where
    a': "table ?doc' (cell - start doc) = Some (CellNode a')" and s': "colspan a' = colspan a"
    by blast
  have e: "int c + int (colspan a) - 1 = int (c + colspan a - 1)"
    using sp by (simp add: of_nat_diff)
  have loop': "forEach (columnBody ?doc' (int c + int (colspan a') - 1) w)
                 [0..<height (tablemap ?doc')] = Inr []"
    unfolding s' e fr by (rule column_second_run(1)[OF wf col loop])
  have st': "start ?doc' \<le> cell" unfolding fr by (rule st)
  have c': "colCount (tablemap ?doc') (cell - start ?doc') = Some c" unfolding fr by (rule c)
  have a'': "table ?doc' (cell - start ?doc') = Some (CellNode a')" unfolding fr by (rule a')
  show "updateColumnWidth (dispatch doc res) cell w = Inr None"
    unfolding d updateColumnWidth_eq[OF st' c' a'' loop']
    by (simp add: dispatchIfChanged_def)
next
  let ?m = "tablemap doc"
  assume res: "updateRowHeight doc cell' h = Inr res'"
  obtain r a tr rp where
    st: "start doc \<le> cell'"
    and rc: "rowCount ?m (cell' - start doc) = Some r"
    and a: "table doc (cell' - start doc) = Some (CellNode a)"
    and sp: "1 \<le> rowspan a" "r + rowspan a \<le> height ?m"
    and loop: "forEach (rowBody doc (int (r + rowspan a - 1)) h) [0..<width ?m] = Inr tr"
    and bf: "before (table doc) (cell' - start doc) = Some rp"
    and r: "res' = dispatchIfChanged
             (tr @ [SetNodeMarkup (start doc + rp) (RowNode \<lparr>row_rowheight = Some [Some h]\<rparr>)])"
    by (rule updateRowHeight_loop[OF wf res])
  let ?rs = "SetNodeMarkup (start doc + rp) (RowNode \<lparr>row_rowheight = Some [Some h]\<rparr>)"
  let ?doc' = "foldl applyStep doc (tr @ [?rs])"
  have d: "dispatch doc res' = ?doc'" unfolding r by (rule dispatch_changed)
  have row: "r + rowspan a - 1 < height ?m" using sp by simp
  have fr: "start ?doc' = start doc" "tablemap ?doc' = ?m"
    using applySteps_frame[of doc "tr @ [?rs]"] by simp_all
  from before_row[OF bf] obtain ra where ra: "table doc rp = Some (RowNode ra)" ..
  note second = row_second_run[OF wf row loop ra]
  from second(2)[OF a] obtain a' where
    a': "table ?doc' (cell' - start doc) = Some (CellNode a')" and s': "rowspan a' = rowspan a"
    by blast
  have bf': "before (table ?doc') (cell' - start doc) = Some rp"
    using before_same_rows[of "table ?doc'" "table doc", OF second(3)] bf by simp
  have e: "int r + int (rowspan a) - 1 = int (r + rowspan a - 1)"
    using sp by (simp add: of_nat_diff)
  have loop': "forEach (rowBody ?doc' (int r + int (rowspan a') - 1) h)
                 [0..<width (tablemap ?doc')] = Inr []"
    unfolding s' e fr by (rule second(1))
  have st': "start ?doc' \<le> cell'" unfolding fr by (rule st)
  have rc': "rowCount (tablemap ?doc') (cell' - start ?doc') = Some r" unfolding fr by (rule rc)
  have a'': "table ?doc' (cell' - start ?doc') = Some (CellNode a')" unfolding fr by (rule a')
  have bf'': "before (table ?doc') (cell' - start ?doc') = Some rp" unfolding fr by (rule bf')
  have 1: "updateRowHeight (dispatch doc res') cell' h = Inr (Some [?rs])"
    unfolding d updateRowHeight_eq[OF st' rc' a'' loop' bf''] fr
    by (simp add: dispatchIfChanged_def)
  have "(table ?doc')(rp \<mapsto> RowNode \<lparr>row_rowheight = Some [Some h]\<rparr>) = table ?doc'"
    using second(4) by (rule map_upd_triv)
  then have 2: "dispatch (dispatch doc res') (Some [?rs]) = dispatch doc res'"
    unfolding d by (simp add: dispatch_def fr)
  from 1 2 show "\<exists>rowPos.
               updateRowHeight (dispatch doc res') cell' h =
                 Inr (Some [SetNodeMarkup rowPos (RowNode \<lparr>row_rowheight = Some [Some h]\<rparr>)]) \<and>
               dispatch (dispatch doc res')
                 (Some [SetNodeMarkup rowPos (RowNode \<lparr>row_rowheight = Some [Some h]\<rparr>)])
               = dispatch doc res'"
    by blast
qed



subsection \<open>The plugin state under transactions\<close>

text \<open>
  C9. A transaction that carries no metadata for the resizing plugin leaves the state
  as it is whenever the state has no active handle (\<open>activeHandle = -1\<close>) or the
  transaction does not change the document: \<open>apply\<close> returns the very same state,
  so \<open>activeHandle\<close>, \<open>dragging\<close> and \<open>direction\<close> are all unchanged.
\<close>

theorem apply_unrelated_frame:
  assumes "getMeta tr = None"
    and "activeHandle s = -1 \<or> \<not> docChanged tr"
  shows "apply_tr s tr = s"
  using assms by (auto simp: apply_tr_def)

theorem apply_unrelated_frame_witness:
  "apply_tr \<lparr>activeHandle = -1, dragging = None, direction = None\<rparr>
     \<lparr>getMeta = None, docChanged = True, mapping = (\<lambda>p. p + 2),
      pointsAtCell = (\<lambda>p. True)\<rparr>
   = \<lparr>activeHandle = -1, dragging = None, direction = None\<rparr>
   \<and> apply_tr \<lparr>activeHandle = 7, dragging = Some (DragX \<lparr>startX = 10, startWidth = 100\<rparr>),
               direction = Some horiz\<rparr>
     \<lparr>getMeta = None, docChanged = False, mapping = (\<lambda>p. p + 2),
      pointsAtCell = (\<lambda>p. False)\<rparr>
   = \<lparr>activeHandle = 7, dragging = Some (DragX \<lparr>startX = 10, startWidth = 100\<rparr>),
      direction = Some horiz\<rparr>"
  using apply_unrelated_frame
          [of "\<lparr>getMeta = None, docChanged = True, mapping = (\<lambda>p. p + 2),
                pointsAtCell = (\<lambda>p. True)\<rparr>"
              "\<lparr>activeHandle = -1, dragging = None, direction = None\<rparr>"]
        apply_unrelated_frame
          [of "\<lparr>getMeta = None, docChanged = False, mapping = (\<lambda>p. p + 2),
                pointsAtCell = (\<lambda>p. False)\<rparr>"
              "\<lparr>activeHandle = 7, dragging = Some (DragX \<lparr>startX = 10, startWidth = 100\<rparr>),
                direction = Some horiz\<rparr>"]
  by simp


text \<open>
  What \<open>apply\<close> computes on a document change. For a state with an active
  handle (\<open>activeHandle > -1\<close>) and a document-changing transaction without
  plugin metadata, the handle is mapped through the transaction's position mapping;
  when the mapped position does not point at a cell the handle becomes the sentinel
  \<open>-1\<close>. The \<open>dragging\<close> record and the \<open>direction\<close> are passed on as
  they are in both cases.
\<close>

theorem apply_remaps_handle:
  assumes "getMeta tr = None"
    and "activeHandle s > -1"
    and "docChanged tr"
  shows "apply_tr s tr =
           \<lparr>activeHandle =
              (if pointsAtCell tr (mapping tr (activeHandle s))
               then mapping tr (activeHandle s) else -1),
            dragging = dragging s, direction = direction s\<rparr>"
  using assms by (simp add: apply_tr_def Let_def)

theorem apply_remaps_handle_witness:
  "apply_tr \<lparr>activeHandle = 7, dragging = Some (DragX \<lparr>startX = 10, startWidth = 100\<rparr>),
             direction = Some horiz\<rparr>
     \<lparr>getMeta = None, docChanged = True, mapping = (\<lambda>p. p + 2),
      pointsAtCell = (\<lambda>p. False)\<rparr>
   = \<lparr>activeHandle = -1, dragging = Some (DragX \<lparr>startX = 10, startWidth = 100\<rparr>),
      direction = Some horiz\<rparr>
   \<and> apply_tr \<lparr>activeHandle = 7, dragging = None, direction = Some vert\<rparr>
     \<lparr>getMeta = None, docChanged = True, mapping = (\<lambda>p. p + 2),
      pointsAtCell = (\<lambda>p. True)\<rparr>
   = \<lparr>activeHandle = 9, dragging = None, direction = Some vert\<rparr>"
  using apply_remaps_handle
          [of "\<lparr>getMeta = None, docChanged = True, mapping = (\<lambda>p. p + 2),
                pointsAtCell = (\<lambda>p. False)\<rparr>"
              "\<lparr>activeHandle = 7, dragging = Some (DragX \<lparr>startX = 10, startWidth = 100\<rparr>),
                direction = Some horiz\<rparr>"]
        apply_remaps_handle
          [of "\<lparr>getMeta = None, docChanged = True, mapping = (\<lambda>p. p + 2),
                pointsAtCell = (\<lambda>p. True)\<rparr>"
              "\<lparr>activeHandle = 7, dragging = None, direction = Some vert\<rparr>"]
  by simp

text \<open>
  C3, at a failing input. A horizontal drag is in progress on the cell at position 7
  when a transaction without plugin metadata changes the document so that the mapped
  position no longer points at a cell. \<open>apply\<close> resets the handle to \<open>-1\<close> but
  keeps \<open>dragging\<close> and \<open>direction\<close>: the result is not the idle state, the
  drag is not abandoned, and releasing the pointer in it still calls the commit
  function, with the sentinel \<open>-1\<close> as its cell. The other way to the sentinel,
  a \<^verbatim>\<open>setHandle: -1\<close> action on the same state, does give the idle state.
\<close>

theorem apply_invalidated_keeps_dragging:
  "activeHandle \<lparr>activeHandle = 7, dragging = Some (DragX \<lparr>startX = 10, startWidth = 100\<rparr>),
                 direction = Some horiz\<rparr> > -1
   \<and> docChanged \<lparr>getMeta = None, docChanged = True, mapping = (\<lambda>p. p),
                 pointsAtCell = (\<lambda>p. False)\<rparr>
   \<and> getMeta \<lparr>getMeta = None, docChanged = True, mapping = (\<lambda>p. p),
               pointsAtCell = (\<lambda>p. False)\<rparr> = None
   \<and> dragging
        (apply_tr \<lparr>activeHandle = 7, dragging = Some (DragX \<lparr>startX = 10, startWidth = 100\<rparr>),
                   direction = Some horiz\<rparr>
           \<lparr>getMeta = None, docChanged = True, mapping = (\<lambda>p. p),
            pointsAtCell = (\<lambda>p. False)\<rparr>)
       = Some (DragX \<lparr>startX = 10, startWidth = 100\<rparr>)
   \<and> apply_tr \<lparr>activeHandle = 7, dragging = Some (DragX \<lparr>startX = 10, startWidth = 100\<rparr>),
               direction = Some horiz\<rparr>
         \<lparr>getMeta = None, docChanged = True, mapping = (\<lambda>p. p),
          pointsAtCell = (\<lambda>p. False)\<rparr>
       \<noteq> init
   \<and> finish
        (apply_tr \<lparr>activeHandle = 7, dragging = Some (DragX \<lparr>startX = 10, startWidth = 100\<rparr>),
                   direction = Some horiz\<rparr>
           \<lparr>getMeta = None, docChanged = True, mapping = (\<lambda>p. p),
            pointsAtCell = (\<lambda>p. False)\<rparr>)
        \<lparr>clientX = 40, clientY = 0, which = 0\<rparr> 25 25
       = Some (UpdateColumnWidth (-1) (Some 130))
   \<and> apply_tr \<lparr>activeHandle = 7, dragging = Some (DragX \<lparr>startX = 10, startWidth = 100\<rparr>),
               direction = Some horiz\<rparr>
         \<lparr>getMeta = Some \<lparr>setHandle = Some (-1), adirection = None, setDragging = None\<rparr>,
          docChanged = False, mapping = (\<lambda>p. p), pointsAtCell = (\<lambda>p. False)\<rparr>
       = init"
  by (simp add: apply_tr_def init_def finish_def draggedWidth_def)

subsection \<open>Dragged sizes\<close>

text \<open>
  C4. While a drag is in progress, the size previewed on a pointer move and the size
  committed on release are both \<open>max minSize (startSize + (currentCoord - startCoord))\<close>,
  with \<open>cellMinWidth\<close> for a horizontal and \<open>cellMinHeight\<close> for a vertical
  drag. The size is never below the minimum, and it is exactly the minimum when the
  delta would take it below.
\<close>

theorem dragged_size_clamped:
  assumes "dragging s = Some d"
  shows "(direction s = Some horiz \<and> d = DragX dx \<longrightarrow>
            finish s ev minW minH =
              Some (UpdateColumnWidth (activeHandle s)
                      (Some (max minW (startWidth dx + (clientX ev - startX dx)))))
          \<and> (which ev \<noteq> 0 \<longrightarrow>
               move s ev minW minH =
                 Some (DisplayColumnWidth (activeHandle s)
                         (Some (max minW (startWidth dx + (clientX ev - startX dx)))))))
       \<and> (direction s = Some vert \<and> d = DragY dy \<longrightarrow>
            finish s ev minW minH =
              Some (UpdateRowHeight (activeHandle s)
                      (Some (max minH (startHeight dy + (clientY ev - startY dy)))))
          \<and> (which ev \<noteq> 0 \<longrightarrow>
               move s ev minW minH =
                 Some (DisplayRowHeight (activeHandle s)
                         (Some (max minH (startHeight dy + (clientY ev - startY dy)))))))
       \<and> minW \<le> draggedWidth dx ev minW
       \<and> minH \<le> draggedHeight dy ev minH
       \<and> (startWidth dx + (clientX ev - startX dx) < minW \<longrightarrow> draggedWidth dx ev minW = minW)
       \<and> (startHeight dy + (clientY ev - startY dy) < minH \<longrightarrow> draggedHeight dy ev minH = minH)"
  using assms
  by (simp add: finish_def move_def draggedWidth_def draggedHeight_def)

theorem dragged_size_clamped_witness:
  "finish \<lparr>activeHandle = 7, dragging = Some (DragX \<lparr>startX = 200, startWidth = 100\<rparr>),
           direction = Some horiz\<rparr>
          \<lparr>clientX = 230, clientY = 40, which = 0\<rparr> 25 25
     = Some (UpdateColumnWidth 7 (Some 130))
   \<and> move \<lparr>activeHandle = 7, dragging = Some (DragX \<lparr>startX = 200, startWidth = 100\<rparr>),
           direction = Some horiz\<rparr>
          \<lparr>clientX = 230, clientY = 40, which = 1\<rparr> 25 25
     = Some (DisplayColumnWidth 7 (Some 130))
   \<and> draggedWidth \<lparr>startX = 200, startWidth = 100\<rparr> \<lparr>clientX = 50, clientY = 20, which = 1\<rparr> 25
     = 25
   \<and> draggedHeight \<lparr>startY = 40, startHeight = 30\<rparr> \<lparr>clientX = 50, clientY = 20, which = 1\<rparr> 25
     = 25"
  using dragged_size_clamped
          [of "\<lparr>activeHandle = 7, dragging = Some (DragX \<lparr>startX = 200, startWidth = 100\<rparr>),
                direction = Some horiz\<rparr>"
              "DragX \<lparr>startX = 200, startWidth = 100\<rparr>"
              "\<lparr>startX = 200, startWidth = 100\<rparr>"
              "\<lparr>clientX = 230, clientY = 40, which = 0\<rparr>" 25 25
              "\<lparr>startY = 40, startHeight = 30\<rparr>"]
        dragged_size_clamped
          [of "\<lparr>activeHandle = 7, dragging = Some (DragX \<lparr>startX = 200, startWidth = 100\<rparr>),
                direction = Some horiz\<rparr>"
              "DragX \<lparr>startX = 200, startWidth = 100\<rparr>"
              "\<lparr>startX = 200, startWidth = 100\<rparr>"
              "\<lparr>clientX = 230, clientY = 40, which = 1\<rparr>" 25 25
              "\<lparr>startY = 40, startHeight = 30\<rparr>"]
        dragged_size_clamped
          [of "\<lparr>activeHandle = 7, dragging = Some (DragX \<lparr>startX = 200, startWidth = 100\<rparr>),
                direction = Some horiz\<rparr>"
              "DragX \<lparr>startX = 200, startWidth = 100\<rparr>"
              "\<lparr>startX = 200, startWidth = 100\<rparr>"
              "\<lparr>clientX = 50, clientY = 20, which = 1\<rparr>" 25 25
              "\<lparr>startY = 40, startHeight = 30\<rparr>"]
  by simp

subsection \<open>Commits and the span-length invariant\<close>

text \<open>
  C10. On a well-formed table every step a commit emits keeps the span-length
  invariant: a step of a column (row) resize on a cell writes a \<open>colwidth\<close>
  (\<open>rowheight\<close>) array whose length is the cell's \<open>colspan\<close> (\<open>rowspan\<close>); the
  array is the stored one, or a fresh array of zeros when none is stored, with one
  index inside the span set to the new size; every other attribute of the cell,
  its extension included, is as before.
\<close>

theorem commit_keeps_span_length:
  assumes "wf_doc doc"
  shows "(updateColumnWidth doc cell w = Inr (Some tr) \<longrightarrow> list_all (columnWrite doc w) tr)
       \<and> (updateRowHeight doc cell' h = Inr (Some tr') \<longrightarrow> list_all (rowWrite doc h) tr')"
proof (intro conjI impI)
  assume res: "updateColumnWidth doc cell w = Inr (Some tr)"
  obtain c a tr0 where
    "start doc \<le> cell"
    "colCount (tablemap doc) (cell - start doc) = Some c"
    "table doc (cell - start doc) = Some (CellNode a)"
    and sp: "1 \<le> colspan a" "c + colspan a \<le> width (tablemap doc)"
    and loop: "forEach (columnBody doc (int (c + colspan a - 1)) w) [0..<height (tablemap doc)]
                 = Inr tr0"
    and r: "Some tr = dispatchIfChanged tr0"
    by (rule updateColumnWidth_loop[OF assms res])
  have tr: "tr = tr0" using dispatchIfChanged_set[OF r[symmetric]] .
  have col: "c + colspan a - 1 < width (tablemap doc)" using sp by simp
  show "list_all (columnWrite doc w) tr"
    unfolding list_all_iff
  proof
    fix s assume "s \<in> set tr"
    from forEach_Inr_mem[OF loop this[unfolded tr]] obtain row steps where
      rw: "row < height (tablemap doc)"
      and b: "columnBody doc (int (c + colspan a - 1)) w row = Inr steps" and s: "s \<in> set steps"
      by auto
    from columnBody_writes[OF assms rw col b] s show "columnWrite doc w s"
      by (simp add: list_all_iff)
  qed
next
  assume res: "updateRowHeight doc cell' h = Inr (Some tr')"
  obtain r a tr0 rp where
    "start doc \<le> cell'"
    "rowCount (tablemap doc) (cell' - start doc) = Some r"
    "table doc (cell' - start doc) = Some (CellNode a)"
    and sp: "1 \<le> rowspan a" "r + rowspan a \<le> height (tablemap doc)"
    and loop: "forEach (rowBody doc (int (r + rowspan a - 1)) h) [0..<width (tablemap doc)]
                 = Inr tr0"
    and bf: "before (table doc) (cell' - start doc) = Some rp"
    and r: "Some tr' = dispatchIfChanged
             (tr0 @ [SetNodeMarkup (start doc + rp) (RowNode \<lparr>row_rowheight = Some [Some h]\<rparr>)])"
    by (rule updateRowHeight_loop[OF assms res])
  have tr: "tr' = tr0 @ [SetNodeMarkup (start doc + rp) (RowNode \<lparr>row_rowheight = Some [Some h]\<rparr>)]"
    using dispatchIfChanged_set[OF r[symmetric]] .
  have row: "r + rowspan a - 1 < height (tablemap doc)" using sp by simp
  from before_row[OF bf] obtain ra where "table doc rp = Some (RowNode ra)" ..
  then have rw:
    "rowWrite doc h (SetNodeMarkup (start doc + rp) (RowNode \<lparr>row_rowheight = Some [Some h]\<rparr>))"
    by (simp add: rowWrite_def)
  show "list_all (rowWrite doc h) tr'"
    unfolding list_all_iff
  proof
    fix s assume "s \<in> set tr'"
    then consider "s \<in> set tr0"
      | "s = SetNodeMarkup (start doc + rp) (RowNode \<lparr>row_rowheight = Some [Some h]\<rparr>)"
      unfolding tr by auto
    then show "rowWrite doc h s"
    proof cases
      case 1
      from forEach_Inr_mem[OF loop 1] obtain col steps where
        cl: "col < width (tablemap doc)"
        and b: "rowBody doc (int (r + rowspan a - 1)) h col = Inr steps" and s: "s \<in> set steps"
        by auto
      from rowBody_writes[OF assms row cl b] s show ?thesis by (simp add: list_all_iff)
    next
      case 2
      then show ?thesis using rw by simp
    qed
  qed
qed


theorem commit_keeps_span_length_witness:
  "wf_doc doc_rowspan
   \<and> updateColumnWidth doc_rowspan 6 130 =
       Inr (Some [SetNodeMarkup 6
                    (CellNode \<lparr>colspan = 1, rowspan = 1, colwidth = Some [Some 130],
                               rowheight = None\<rparr>),
                  SetNodeMarkup 12
                    (CellNode \<lparr>colspan = 1, rowspan = 1, colwidth = Some [Some 130],
                               rowheight = None\<rparr>)])
   \<and> list_all (columnWrite doc_rowspan 130)
        [SetNodeMarkup 6
           (CellNode \<lparr>colspan = 1, rowspan = 1, colwidth = Some [Some 130], rowheight = None\<rparr>),
         SetNodeMarkup 12
           (CellNode \<lparr>colspan = 1, rowspan = 1, colwidth = Some [Some 130], rowheight = None\<rparr>)]
   \<and> updateRowHeight doc_rowspan 12 40 =
       Inr (Some [SetNodeMarkup 2
                    (CellNode \<lparr>colspan = 1, rowspan = 2, colwidth = None,
                               rowheight = Some [Some 0, Some 40]\<rparr>),
                  SetNodeMarkup 12
                    (CellNode \<lparr>colspan = 1, rowspan = 1, colwidth = None,
                               rowheight = Some [Some 40]\<rparr>),
                  SetNodeMarkup 11 (RowNode \<lparr>row_rowheight = Some [Some 40]\<rparr>)])
   \<and> list_all (rowWrite doc_rowspan 40)
        [SetNodeMarkup 2
           (CellNode \<lparr>colspan = 1, rowspan = 2, colwidth = None,
                      rowheight = Some [Some 0, Some 40]\<rparr>),
         SetNodeMarkup 12
           (CellNode \<lparr>colspan = 1, rowspan = 1, colwidth = None, rowheight = Some [Some 40]\<rparr>),
         SetNodeMarkup 11 (RowNode \<lparr>row_rowheight = Some [Some 40]\<rparr>)]"
  (is "_ \<and> _ = Inr (Some ?trc) \<and> _ \<and> _ = Inr (Some ?trr) \<and> _")
proof -
  have wf: "wf_doc doc_rowspan" by code_simp
  have c: "updateColumnWidth doc_rowspan 6 130 = Inr (Some ?trc)" by code_simp
  have r: "updateRowHeight doc_rowspan 12 40 = Inr (Some ?trr)" by code_simp
  from commit_keeps_span_length[OF wf, of 6 130 ?trc 12 40 ?trr] c r
  have "list_all (columnWrite doc_rowspan 130) ?trc \<and> list_all (rowWrite doc_rowspan 40) ?trr"
    by blast
  with wf c r show ?thesis by blast
qed

subsection \<open>One update per cell along the boundary\<close>

text \<open>
  C1, the row resize at a failing input. In the one-row table whose only cell spans
  two columns, a vertical resize of that cell (position 2) to height 40 visits both
  grid columns of row 0: the guard of the loop's \<^verbatim>\<open>continue\<close> tests \<open>row\<close>,
  which is 0, so the second column is not skipped and the same cell receives two
  attribute updates. The column resize of the cell that spans two rows of the other
  table (position 2) visits both grid rows and emits one update for it.
\<close>

theorem row_resize_updates_spanning_cell_twice:
  "updateRowHeight doc_colspan 2 40 =
     Inr (Some [SetNodeMarkup 2
                  (CellNode \<lparr>colspan = 2, rowspan = 1, colwidth = None,
                             rowheight = Some [Some 40]\<rparr>),
                SetNodeMarkup 2
                  (CellNode \<lparr>colspan = 2, rowspan = 1, colwidth = None,
                             rowheight = Some [Some 40]\<rparr>),
                SetNodeMarkup 1 (RowNode \<lparr>row_rowheight = Some [Some 40]\<rparr>)])
   \<and> updateColumnWidth doc_rowspan 2 130 =
     Inr (Some [SetNodeMarkup 2
                  (CellNode \<lparr>colspan = 1, rowspan = 2, colwidth = Some [Some 130],
                             rowheight = None\<rparr>)])"
  by code_simp

subsection \<open>The row's own height\<close>

text \<open>
  C6, at a failing input. In the two-row table the cell at position 2 spans rows 0
  and 1, so a vertical resize on it targets row 1 (\<open>rowCount + rowspan - 1\<close>), whose
  node is at offset 10 (position 11). The per-cell updates are those of row 1, but the
  row-level \<open>rowheight\<close> is written at position 1, the node of row 0, which is the
  row around the handle's cell; nothing is written at position 11.
\<close>

theorem row_resize_writes_row_of_handle_cell:
  "rowCount (tablemap doc_rowspan) 1 = Some 0
   \<and> table doc_rowspan 1
       = Some (CellNode \<lparr>colspan = 1, rowspan = 2, colwidth = None, rowheight = None\<rparr>)
   \<and> table doc_rowspan 0 = Some (RowNode \<lparr>row_rowheight = None\<rparr>)
   \<and> table doc_rowspan 10 = Some (RowNode \<lparr>row_rowheight = None\<rparr>)
   \<and> before (table doc_rowspan) 11 = Some 10
   \<and> updateRowHeight doc_rowspan 2 40 =
     Inr (Some [SetNodeMarkup 2
                  (CellNode \<lparr>colspan = 1, rowspan = 2, colwidth = None,
                             rowheight = Some [Some 0, Some 40]\<rparr>),
                SetNodeMarkup 12
                  (CellNode \<lparr>colspan = 1, rowspan = 1, colwidth = None,
                             rowheight = Some [Some 40]\<rparr>),
                SetNodeMarkup 1 (RowNode \<lparr>row_rowheight = Some [Some 40]\<rparr>)])"
  by code_simp

subsection \<open>Committing the same size twice\<close>

text \<open>
  C2 (as the code has it). On a well-formed table every step a commit emits on a
  cell changes that cell, so a cell that already holds the new size at the touched
  index gets no update. Committing a width for a column boundary and then
  committing the same width again produces no transaction the second time: every cell along the boundary already holds the width at the touched
  index, every iteration takes the \<^verbatim>\<open>continue\<close>, and the empty transaction is
  dropped. Committing a height for a row boundary twice skips every per-cell update
  the second time as well, but the row node's own \<open>rowheight\<close> is written
  unconditionally: the second commit dispatches a transaction of exactly that one
  step, and applying it leaves the document as it is.
\<close>

theorem second_commit_same_size:
  fixes doc :: "'a Doc"
  assumes wf: "wf_doc doc"
  shows "(updateColumnWidth doc cell w = Inr res \<longrightarrow>
            (\<forall>tr. res = Some tr \<longrightarrow> list_all (changesCell doc) tr) \<and>
            updateColumnWidth (dispatch doc res) cell w = Inr None)
       \<and> (updateRowHeight doc cell' h = Inr res' \<longrightarrow>
            (\<forall>tr. res' = Some tr \<longrightarrow> list_all (changesCell doc) tr) \<and>
            (\<exists>rowPos.
               updateRowHeight (dispatch doc res') cell' h =
                 Inr (Some [SetNodeMarkup rowPos (RowNode \<lparr>row_rowheight = Some [Some h]\<rparr>)]) \<and>
               dispatch (dispatch doc res')
                 (Some [SetNodeMarkup rowPos (RowNode \<lparr>row_rowheight = Some [Some h]\<rparr>)])
               = dispatch doc res'))"
  using second_commit_aux[OF wf, of cell w res cell' h res']
    commit_changes_cells[OF wf]
  by blast

theorem second_commit_same_size_witness:
  "wf_doc doc_rowspan
   \<and> updateColumnWidth doc_rowspan 6 130 =
       Inr (Some [SetNodeMarkup 6
                    (CellNode \<lparr>colspan = 1, rowspan = 1, colwidth = Some [Some 130],
                               rowheight = None\<rparr>),
                  SetNodeMarkup 12
                    (CellNode \<lparr>colspan = 1, rowspan = 1, colwidth = Some [Some 130],
                               rowheight = None\<rparr>)])
   \<and> updateColumnWidth
        (dispatch doc_rowspan
           (Some [SetNodeMarkup 6
                    (CellNode \<lparr>colspan = 1, rowspan = 1, colwidth = Some [Some 130],
                               rowheight = None\<rparr>),
                  SetNodeMarkup 12
                    (CellNode \<lparr>colspan = 1, rowspan = 1, colwidth = Some [Some 130],
                               rowheight = None\<rparr>)])) 6 130
       = Inr None
   \<and> updateRowHeight doc_rowspan 12 40 =
       Inr (Some [SetNodeMarkup 2
                    (CellNode \<lparr>colspan = 1, rowspan = 2, colwidth = None,
                               rowheight = Some [Some 0, Some 40]\<rparr>),
                  SetNodeMarkup 12
                    (CellNode \<lparr>colspan = 1, rowspan = 1, colwidth = None,
                               rowheight = Some [Some 40]\<rparr>),
                  SetNodeMarkup 11 (RowNode \<lparr>row_rowheight = Some [Some 40]\<rparr>)])
   \<and> (\<exists>rowPos.
        updateRowHeight
          (dispatch doc_rowspan
             (Some [SetNodeMarkup 2
                      (CellNode \<lparr>colspan = 1, rowspan = 2, colwidth = None,
                                 rowheight = Some [Some 0, Some 40]\<rparr>),
                    SetNodeMarkup 12
                      (CellNode \<lparr>colspan = 1, rowspan = 1, colwidth = None,
                                 rowheight = Some [Some 40]\<rparr>),
                    SetNodeMarkup 11 (RowNode \<lparr>row_rowheight = Some [Some 40]\<rparr>)])) 12 40
        = Inr (Some [SetNodeMarkup rowPos (RowNode \<lparr>row_rowheight = Some [Some 40]\<rparr>)]))"
  (is "_ \<and> _ = Inr ?res \<and> _ \<and> _ = Inr ?res' \<and> _")
proof -
  have wf: "wf_doc doc_rowspan" by code_simp
  have c: "updateColumnWidth doc_rowspan 6 130 = Inr ?res" by code_simp
  have r: "updateRowHeight doc_rowspan 12 40 = Inr ?res'" by code_simp
  note both = second_commit_same_size[OF wf, of 6 130 ?res 12 40 ?res']
  from both c have 1: "updateColumnWidth (dispatch doc_rowspan ?res) 6 130 = Inr None"
    by blast
  from both r have 2: "\<exists>rowPos. updateRowHeight (dispatch doc_rowspan ?res') 12 40
        = Inr (Some [SetNodeMarkup rowPos (RowNode \<lparr>row_rowheight = Some [Some 40]\<rparr>)])"
    by blast
  from wf c 1 r 2 show ?thesis by blast
qed

text \<open>
  C2 as stated fails for row resizes: the second commit of the same height is not
  dropped, its transaction holds the step on the row node.
\<close>

theorem second_row_commit_not_dropped:
  "updateRowHeight doc_rowspan 12 40 =
       Inr (Some [SetNodeMarkup 2
                    (CellNode \<lparr>colspan = 1, rowspan = 2, colwidth = None,
                               rowheight = Some [Some 0, Some 40]\<rparr>),
                  SetNodeMarkup 12
                    (CellNode \<lparr>colspan = 1, rowspan = 1, colwidth = None,
                               rowheight = Some [Some 40]\<rparr>),
                  SetNodeMarkup 11 (RowNode \<lparr>row_rowheight = Some [Some 40]\<rparr>)])
   \<and> updateRowHeight
        (dispatch doc_rowspan
           (Some [SetNodeMarkup 2
                    (CellNode \<lparr>colspan = 1, rowspan = 2, colwidth = None,
                               rowheight = Some [Some 0, Some 40]\<rparr>),
                  SetNodeMarkup 12
                    (CellNode \<lparr>colspan = 1, rowspan = 1, colwidth = None,
                               rowheight = Some [Some 40]\<rparr>),
                  SetNodeMarkup 11 (RowNode \<lparr>row_rowheight = Some [Some 40]\<rparr>)])) 12 40
       = Inr (Some [SetNodeMarkup 11 (RowNode \<lparr>row_rowheight = Some [Some 40]\<rparr>)])"
  by code_simp

subsection \<open>The size a drag starts from\<close>

text \<open>
  C8. For a cell of the data model (a span of at least one, a \<open>colwidth\<close> array
  as long as \<open>colspan\<close> when present) the width captured at drag start is the
  stored hint of the cell's last spanned column when that hint is present and not
  zero, and otherwise the measured width less the cell's present non-zero hints,
  divided by the number of spanned columns without a hint, which is at least one.
  The height is the same over \<open>rowheight\<close> and \<open>rowspan\<close>.
\<close>

theorem current_size_effective:
  assumes "1 \<le> colspan a" and "wf_hints (colspan a) (colwidth a)" and "1 \<le> rowspan b"
  shows "currentColWidth measured a = Some (effectiveSize (colspan a) (colwidth a) measured)
       \<and> currentRowCellHeight measured b = Some (effectiveSize (rowspan b) (rowheight b) measured)
       \<and> (\<not> truthy (hintOf (colwidth a) (colspan a - 1)) \<longrightarrow>
            0 < colspan a - length (hinted (colspan a) (colwidth a)))
       \<and> (\<not> truthy (hintOf (rowheight b) (rowspan b - 1)) \<longrightarrow>
            0 < rowspan b - length (hinted (rowspan b) (rowheight b)))"
proof (intro conjI impI)
  show "currentColWidth measured a = Some (effectiveSize (colspan a) (colwidth a) measured)"
  proof (cases "colwidth a")
    case None
    then show ?thesis using assms(1)
      by (simp add: currentColWidth_def effectiveSize_def hintOf_def hinted_def truthy_def)
  next
    case (Some cw)
    then have len: "length cw = colspan a" using assms(2) by (simp add: wf_hints_def)
    have last: "get_at cw (int (length cw) - 1) = hintOf (Some cw) (colspan a - 1)"
      using assms(1) len by (simp add: hintOf_def of_nat_diff)
    show ?thesis
    proof (cases "truthy (hintOf (Some cw) (colspan a - 1))")
      case True
      then show ?thesis using Some last
        by (auto simp: currentColWidth_def effectiveSize_def truthy_def split: option.splits)
    next
      case False
      from effective_loop[OF assms(1) False, of measured] False Some last
      show ?thesis by (simp add: currentColWidth_def effectiveSize_def)
    qed
  qed
  show "currentRowCellHeight measured b = Some (effectiveSize (rowspan b) (rowheight b) measured)"
  proof (cases "rowheight b")
    case None
    then show ?thesis using assms(3)
      by (simp add: currentRowCellHeight_def effectiveSize_def hintOf_def hinted_def truthy_def)
  next
    case (Some rh)
    have last: "get_at rh (int (rowspan b) - 1) = hintOf (Some rh) (rowspan b - 1)"
      using assms(3) by (simp add: hintOf_def of_nat_diff)
    show ?thesis
    proof (cases "truthy (hintOf (Some rh) (rowspan b - 1))")
      case True
      then show ?thesis using Some last
        by (auto simp: currentRowCellHeight_def effectiveSize_def truthy_def split: option.splits)
    next
      case False
      from effective_loop[OF assms(3) False, of measured] False Some last
      show ?thesis by (simp add: currentRowCellHeight_def effectiveSize_def)
    qed
  qed
  show "0 < colspan a - length (hinted (colspan a) (colwidth a))"
    if "\<not> truthy (hintOf (colwidth a) (colspan a - 1))"
    using hinted_lt[OF assms(1) that] by simp
  show "0 < rowspan b - length (hinted (rowspan b) (rowheight b))"
    if "\<not> truthy (hintOf (rowheight b) (rowspan b - 1))"
    using hinted_lt[OF assms(3) that] by simp
qed


theorem current_size_effective_witness:
  "currentColWidth 400
     \<lparr>colspan = 3, rowspan = 1, colwidth = Some [Some 100, Some 0, Some 0], rowheight = None\<rparr>
     = Some 150
   \<and> currentRowCellHeight 400
     \<lparr>colspan = 1, rowspan = 2, colwidth = None, rowheight = Some [Some 30, Some 45]\<rparr>
     = Some 45"
proof -
  let ?a = "\<lparr>colspan = 3, rowspan = 1, colwidth = Some [Some 100, Some 0, Some 0],
             rowheight = None\<rparr>"
  let ?b = "\<lparr>colspan = 1, rowspan = 2, colwidth = None, rowheight = Some [Some 30, Some 45]\<rparr>"
  have 1: "1 \<le> colspan ?a" "wf_hints (colspan ?a) (colwidth ?a)" "1 \<le> rowspan ?b"
    by (simp_all add: wf_hints_def)
  have e1: "effectiveSize (colspan ?a) (colwidth ?a) 400 = 150"
    by (simp add: effectiveSize_def hinted_def hintOf_def get_at_def truthy_def upt_rec)
  have e2: "effectiveSize (rowspan ?b) (rowheight ?b) 400 = 45"
    by (simp add: effectiveSize_def hinted_def hintOf_def get_at_def truthy_def upt_rec)
  from current_size_effective[OF 1, of 400] show ?thesis
    unfolding e1 e2 by blast
qed

subsection \<open>Edge detection\<close>

text \<open>
  C5. When the probe of a left (top) edge resolves to a cell of the grid map, the
  handle is the cell one slot (one grid width) before the cell's first slot, that is
  its neighbour one column (row) earlier; a pointer near the right (bottom) edge of
  that neighbour resolves to the same handle. In the first column (the index is a
  multiple of the width) the left edge gives \<open>-1\<close>, and so does the top edge in the
  first row (the index is below the width).
\<close>

theorem edge_owner_is_neighbour:
  assumes cell: "cellAround view p = Some c"
    and inside: "cstart c \<le> cpos c"
    and found: "0 \<le> indexOf (map_t (cmap c)) (cpos c - cstart c)"
    and w: "0 < width (cmap c)"
  defines "index \<equiv> nat (indexOf (map_t (cmap c)) (cpos c - cstart c))"
  shows "(posAtCoords view \<lparr>c_left = clientX ev + hw, c_top = clientY ev\<rparr> = Some p \<longrightarrow>
            edgeCell view ev Left hw =
              (if index mod width (cmap c) = 0 then Some (-1)
               else Some (int (cstart c + map_t (cmap c) ! (index - 1)))))
       \<and> (posAtCoords view \<lparr>c_left = clientX ev, c_top = clientY ev + hw\<rparr> = Some p \<longrightarrow>
            edgeCell view ev Top hw =
              (if index < width (cmap c) then Some (-1)
               else Some (int (cstart c + map_t (cmap c) ! (index - width (cmap c))))))
       \<and> (posAtCoords view \<lparr>c_left = clientX ev + hw, c_top = clientY ev\<rparr> = Some p \<and>
           index mod width (cmap c) \<noteq> 0 \<and>
           posAtCoords view \<lparr>c_left = clientX ev' - hw, c_top = clientY ev'\<rparr> = Some p' \<and>
           cellAround view p' = Some n \<and>
           cpos n = cstart c + map_t (cmap c) ! (index - 1) \<longrightarrow>
            edgeCell view ev' Right hw = edgeCell view ev Left hw)
       \<and> (posAtCoords view \<lparr>c_left = clientX ev, c_top = clientY ev + hw\<rparr> = Some p \<and>
           \<not> index < width (cmap c) \<and>
           posAtCoords view \<lparr>c_left = clientX ev', c_top = clientY ev' - hw\<rparr> = Some p' \<and>
           cellAround view p' = Some n \<and>
           cpos n = cstart c + map_t (cmap c) ! (index - width (cmap c)) \<longrightarrow>
            edgeCell view ev' Bottom hw = edgeCell view ev Top hw)"
proof -
  let ?m = "cmap c"
  let ?i = "indexOf (map_t ?m) (cpos c - cstart c)"
  have ii: "?i = int index" using found by (simp add: index_def)
  have lt: "index < length (map_t ?m)"
    using indexOf_bounds[of "map_t ?m" "cpos c - cstart c"] found by (simp add: index_def)
  have ns: "\<not> cpos c < cstart c" using inside by simp
  have modz: "(int index mod int (width ?m) = 0) = (index mod width ?m = 0)"
    by (simp add: zmod_int[symmetric] del: of_nat_mod)
  have divz: "(int index div int (width ?m) = 0) = (index < width ?m)"
    using w by (simp add: zdiv_int[symmetric] div_eq_0_iff del: of_nat_div)
  have s1: "slot ?m (int index - 1) = Some (map_t ?m ! (index - 1))" if "index mod width ?m \<noteq> 0"
  proof -
    have "0 < index" using that by (cases index) auto
    then have e: "int index - 1 = int (index - 1)" by (simp add: of_nat_diff)
    have "index - 1 < length (map_t ?m)" using lt by simp
    then show ?thesis unfolding e by (rule slot_nat)
  qed
  have s2: "slot ?m (int index - int (width ?m)) = Some (map_t ?m ! (index - width ?m))"
    if "\<not> index < width ?m"
  proof -
    have e: "int index - int (width ?m) = int (index - width ?m)"
      using that by (simp add: of_nat_diff)
    have "index - width ?m < length (map_t ?m)" using lt by simp
    then show ?thesis unfolding e by (rule slot_nat)
  qed
  have L: "edgeCell view ev Left hw =
              (if index mod width ?m = 0 then Some (-1)
               else Some (int (cstart c + map_t ?m ! (index - 1))))"
    if pc: "posAtCoords view \<lparr>c_left = clientX ev + hw, c_top = clientY ev\<rparr> = Some p"
  proof (cases "index mod width ?m = 0")
    case True
    then show ?thesis using pc cell ns w by (simp add: edgeCell_def Let_def ii modz)
  next
    case False
    then show ?thesis using pc cell ns w s1[OF False]
      by (simp add: edgeCell_def Let_def ii modz)
  qed
  have T: "edgeCell view ev Top hw =
              (if index < width ?m then Some (-1)
               else Some (int (cstart c + map_t ?m ! (index - width ?m))))"
    if pc: "posAtCoords view \<lparr>c_left = clientX ev, c_top = clientY ev + hw\<rparr> = Some p"
  proof (cases "index < width ?m")
    case True
    then show ?thesis using pc cell ns w by (simp add: edgeCell_def Let_def ii divz)
  next
    case False
    then show ?thesis using pc cell ns w s2[OF False]
      by (simp add: edgeCell_def Let_def ii divz)
  qed
  have R: "edgeCell view ev' Right hw = Some (int (cpos n))"
    if "posAtCoords view \<lparr>c_left = clientX ev' - hw, c_top = clientY ev'\<rparr> = Some p'"
      "cellAround view p' = Some n"
    using that by (simp add: edgeCell_def Let_def)
  have B: "edgeCell view ev' Bottom hw = Some (int (cpos n))"
    if "posAtCoords view \<lparr>c_left = clientX ev', c_top = clientY ev' - hw\<rparr> = Some p'"
      "cellAround view p' = Some n"
    using that by (simp add: edgeCell_def Let_def)
  show ?thesis
  proof (intro conjI impI)
    assume a: "posAtCoords view \<lparr>c_left = clientX ev + hw, c_top = clientY ev\<rparr> = Some p"
    show "edgeCell view ev Left hw =
              (if index mod width ?m = 0 then Some (-1)
               else Some (int (cstart c + map_t ?m ! (index - 1))))"
      by (rule L[OF a])
  next
    assume a: "posAtCoords view \<lparr>c_left = clientX ev, c_top = clientY ev + hw\<rparr> = Some p"
    show "edgeCell view ev Top hw =
              (if index < width ?m then Some (-1)
               else Some (int (cstart c + map_t ?m ! (index - width ?m))))"
      by (rule T[OF a])
  next
    assume a: "posAtCoords view \<lparr>c_left = clientX ev + hw, c_top = clientY ev\<rparr> = Some p \<and>
           index mod width ?m \<noteq> 0 \<and>
           posAtCoords view \<lparr>c_left = clientX ev' - hw, c_top = clientY ev'\<rparr> = Some p' \<and>
           cellAround view p' = Some n \<and>
           cpos n = cstart c + map_t ?m ! (index - 1)"
    then have "edgeCell view ev Left hw = Some (int (cstart c + map_t ?m ! (index - 1)))"
      using L by simp
    moreover from a have "edgeCell view ev' Right hw = Some (int (cpos n))"
      using R by blast
    ultimately show "edgeCell view ev' Right hw = edgeCell view ev Left hw"
      using a by simp
  next
    assume a: "posAtCoords view \<lparr>c_left = clientX ev, c_top = clientY ev + hw\<rparr> = Some p \<and>
           \<not> index < width ?m \<and>
           posAtCoords view \<lparr>c_left = clientX ev', c_top = clientY ev' - hw\<rparr> = Some p' \<and>
           cellAround view p' = Some n \<and>
           cpos n = cstart c + map_t ?m ! (index - width ?m)"
    then have "edgeCell view ev Top hw = Some (int (cstart c + map_t ?m ! (index - width ?m)))"
      using T by simp
    moreover from a have "edgeCell view ev' Bottom hw = Some (int (cpos n))"
      using B by blast
    ultimately show "edgeCell view ev' Bottom hw = edgeCell view ev Top hw"
      using a by simp
  qed
qed


theorem edge_owner_is_neighbour_witness:
  "edgeCell view_2x2 \<lparr>clientX = 103, clientY = 10, which = 0\<rparr> Left 5 = Some 2
   \<and> edgeCell view_2x2 \<lparr>clientX = 97, clientY = 10, which = 0\<rparr> Right 5 = Some 2
   \<and> edgeCell view_2x2 \<lparr>clientX = 103, clientY = 10, which = 0\<rparr> Top 5 = Some (-1)"
proof -
  let ?ev = "\<lparr>clientX = 103, clientY = 10, which = 0\<rparr>"
  let ?ev' = "\<lparr>clientX = 97, clientY = 10, which = 0\<rparr>"
  let ?c = "\<lparr>cpos = 6, cstart = 1, cmap = map_2x2\<rparr>"
  let ?n = "\<lparr>cpos = 2, cstart = 1, cmap = map_2x2\<rparr>"
  have i: "indexOf (map_t map_2x2) 5 = 1" by (simp add: map_2x2_def)
  have a: "cellAround view_2x2 8 = Some ?c" "cstart ?c \<le> cpos ?c"
    "0 \<le> indexOf (map_t (cmap ?c)) (cpos ?c - cstart ?c)" "0 < width (cmap ?c)"
    by (simp_all add: view_2x2_def i) (simp add: map_2x2_def)
  have p: "posAtCoords view_2x2 \<lparr>c_left = clientX ?ev + 5, c_top = clientY ?ev\<rparr> = Some 8"
    "posAtCoords view_2x2 \<lparr>c_left = clientX ?ev, c_top = clientY ?ev + 5\<rparr> = Some 8"
    "posAtCoords view_2x2 \<lparr>c_left = clientX ?ev' - 5, c_top = clientY ?ev'\<rparr> = Some 4"
    "cellAround view_2x2 4 = Some ?n"
    by (simp_all add: view_2x2_def)
  have v: "nat (indexOf (map_t (cmap ?c)) (cpos ?c - cstart ?c)) = 1"
    "map_t (cmap ?c) ! 0 = 1" "width (cmap ?c) = 2"
    by (simp_all add: i) (simp_all add: map_2x2_def)
  from edge_owner_is_neighbour[OF a, of ?ev 5 ?ev' 4 ?n] p
  show ?thesis unfolding v by (simp add: map_2x2_def)
qed

subsection \<open>Parsing attributes from the DOM\<close>

text \<open>
  C7. Parsing an element never fails and is defensive about size hints: the parsed
  \<open>colwidth\<close> (\<open>rowheight\<close>) of a cell is the array read from the element when
  the attribute matches the pattern and the array's length equals the parsed
  \<open>colspan\<close> (\<open>rowspan\<close>), and \<^verbatim>\<open>null\<close> in every other case; for a row the
  length must be 1. So a parsed array, when present, has the length of the span, and
  a mismatched one is replaced by the absent default. A string argument gives the
  empty attribute object. (The extra attributes are assumed not to be named like
  the four built-in ones.)
\<close>

theorem parsing_is_defensive:
  assumes "''colwidth'' \<notin> fst ` set extraAttrs" and "''rowheight'' \<notin> fst ` set extraAttrs"
    and "''colspan'' \<notin> fst ` set extraAttrs" and "''rowspan'' \<notin> fst ` set extraAttrs"
  shows "getCellAttrs toNumber (DomElement getAttribute) extraAttrs ''colwidth'' =
           Some (JHints
             (case parseSizes toNumber (getAttribute ''data-colwidth'') of
                None \<Rightarrow> None
              | Some widths \<Rightarrow>
                  if Some (real (length widths)) = spanOf toNumber (getAttribute ''colspan'')
                  then Some widths else None))
       \<and> getCellAttrs toNumber (DomElement getAttribute) extraAttrs ''rowheight'' =
           Some (JHints
             (case parseSizes toNumber (getAttribute ''data-rowheight'') of
                None \<Rightarrow> None
              | Some heights \<Rightarrow>
                  if Some (real (length heights)) = spanOf toNumber (getAttribute ''rowspan'')
                  then Some heights else None))
       \<and> getCellAttrs toNumber (DomElement getAttribute) extraAttrs ''colspan'' =
           Some (JNum (spanOf toNumber (getAttribute ''colspan'')))
       \<and> getCellAttrs toNumber (DomElement getAttribute) extraAttrs ''rowspan'' =
           Some (JNum (spanOf toNumber (getAttribute ''rowspan'')))
       \<and> getRowAttrs toNumber (DomElement getAttribute) extraAttrs ''rowheight'' =
           Some (JHints
             (case parseSizes toNumber (getAttribute ''data-rowheight'') of
                None \<Rightarrow> None
              | Some heights \<Rightarrow> if length heights = 1 then Some heights else None))
       \<and> (getCellAttrs toNumber (DomElement getAttribute) extraAttrs ''colwidth''
            = Some (JHints (Some ws)) \<longrightarrow>
          spanOf toNumber (getAttribute ''colspan'') = Some (real (length ws)))
       \<and> (getCellAttrs toNumber (DomElement getAttribute) extraAttrs ''rowheight''
            = Some (JHints (Some hs)) \<longrightarrow>
          spanOf toNumber (getAttribute ''rowspan'') = Some (real (length hs)))
       \<and> (getRowAttrs toNumber (DomElement getAttribute) extraAttrs ''rowheight''
            = Some (JHints (Some hs)) \<longrightarrow> length hs = 1)
       \<and> getCellAttrs toNumber (DomString s) extraAttrs = Map.empty
       \<and> getRowAttrs toNumber (DomString s) extraAttrs = Map.empty"
  using assms
  by (auto simp: getCellAttrs_def getRowAttrs_def Let_def addExtra_other
           split: option.splits if_splits)

theorem parsing_is_defensive_witness:
  "getCellAttrs decimal
     (DomElement (map_of [(''data-colwidth'', ''120,80''), (''colspan'', ''3''),
                          (''data-rowheight'', ''30'')]))
     ([] :: (string \<times> (dom \<Rightarrow> unit jsval option) option) list) ''colwidth''
     = Some (JHints None)
   \<and> getCellAttrs decimal
     (DomElement (map_of [(''data-colwidth'', ''120,80''), (''colspan'', ''3''),
                          (''data-rowheight'', ''30'')]))
     ([] :: (string \<times> (dom \<Rightarrow> unit jsval option) option) list) ''rowheight''
     = Some (JHints (Some [Some 30]))
   \<and> getRowAttrs decimal
     (DomElement (map_of [(''data-colwidth'', ''120,80''), (''colspan'', ''3''),
                          (''data-rowheight'', ''30,40'')]))
     ([] :: (string \<times> (dom \<Rightarrow> unit jsval option) option) list) ''rowheight''
     = Some (JHints None)"
proof -
  let ?ga = "map_of [(''data-colwidth'', ''120,80''), (''colspan'', ''3''),
                     (''data-rowheight'', ''30'')]"
  let ?gr = "map_of [(''data-colwidth'', ''120,80''), (''colspan'', ''3''),
                     (''data-rowheight'', ''30,40'')]"
  let ?ex = "[] :: (string \<times> (dom \<Rightarrow> unit jsval option) option) list"
  have n: "''colwidth'' \<notin> fst ` set ?ex" "''rowheight'' \<notin> fst ` set ?ex"
    "''colspan'' \<notin> fst ` set ?ex" "''rowspan'' \<notin> fst ` set ?ex"
    by simp_all
  have w: "parseSizes decimal (?ga ''data-colwidth'') = Some [Some 120, Some 80]"
    by code_simp
  have h: "parseSizes decimal (?ga ''data-rowheight'') = Some [Some 30]"
    by code_simp
  have h2: "parseSizes decimal (?gr ''data-rowheight'') = Some [Some 30, Some 40]"
    by code_simp
  have c: "spanOf decimal (?ga ''colspan'') = Some 3" by code_simp
  have r: "spanOf decimal (?ga ''rowspan'') = Some 1" by code_simp
  from parsing_is_defensive[OF n, of decimal ?ga "[]" "[]"]
       parsing_is_defensive[OF n, of decimal ?gr "[]" "[]"]
  show ?thesis unfolding w h h2 c r by simp
qed

end
